theory Spec2Isabelle
  imports
    Complex_Main
    "HOL-Library.Multiset"
    "HOL-Library.Sublist"
    "HOL-Library.Product_Lexorder"
    "HOL-Library.List_Lexorder"
    "HOL-Library.AList"
begin

section \<open>The medicine listing pipeline of Cure-Link\<close>

text \<open>
  The listing routes of \<^verbatim>\<open>src/routes/medicine.route.js\<close> run three handlers in a row:
  the search middleware (\<^verbatim>\<open>src/middleware/search.middleware.js\<close>), the paginate
  middleware (\<^verbatim>\<open>src/middleware/paginate.middleware.js\<close>) and the controller
  \<^verbatim>\<open>getAllMedicines\<close>. Each handler is a function from the request to the updated
  request (or to the error it hands to \<^verbatim>\<open>next\<close>).

  Conventions of the embedding:
  \<^item> a JavaScript number that holds an integer (page, limit, lengths) is an \<^typ>\<open>int\<close>;
    the program's doubles hold such an integer, and compute with it, exactly as long as it
    stays below \<open>2^53\<close> in absolute value, and the properties of page and limit are
    stated within that range (\<open>exact\<close>, below);
  \<^item> a number that holds a coordinate or a distance is a \<^typ>\<open>real\<close>, so the arithmetic
    of \<^verbatim>\<open>calculateDistance\<close> is exact where the program rounds to a double; what is
    stated of the program about a distance is its value \<open>0\<close> from a point to itself, which
    is exact in the program too, and the order in which distances are sorted;
  \<^item> a string is a list of characters of one byte; the white space and the letter case
    the model knows are those of ASCII, and a property that depends on either is stated
    for ASCII text (\<open>ascii\<close>, below);
  \<^item> a query parameter is absent or a string;
  \<^item> the MongoDB collection and the regular expression engine are not code of the
    repository; the sections below that model them say so.
\<close>

subsection \<open>Built-in functions of the language\<close>

definition isWhiteSpace :: "char \<Rightarrow> bool" where
  "isWhiteSpace c \<longleftrightarrow> c \<in> {CHR '' '', CHR 0x09, CHR 0x0A, CHR 0x0B, CHR 0x0C, CHR 0x0D}"

text \<open>\<^verbatim>\<open>String.prototype.trim\<close>.\<close>

definition trim :: "string \<Rightarrow> string" where
  "trim s = rev (dropWhile isWhiteSpace (rev (dropWhile isWhiteSpace s)))"

text \<open>
  Text within ASCII. On it, the six characters above are all the white space there is, and
  the letters \<open>a\<close> to \<open>z\<close> are all that letter case changes.
\<close>

definition ascii :: "string \<Rightarrow> bool" where
  "ascii s \<longleftrightarrow> list_all (\<lambda>c. (of_char c :: nat) < 128) s"

definition digit_of :: "nat \<Rightarrow> char \<Rightarrow> nat option" where
  "digit_of radix c =
     (let n = (of_char c :: nat);
          v = (if 48 \<le> n \<and> n \<le> 57 then Some (n - 48)
               else if 97 \<le> n \<and> n \<le> 122 then Some (n - 87)
               else if 65 \<le> n \<and> n \<le> 90 then Some (n - 55)
               else None)
      in case v of None \<Rightarrow> None | Some d \<Rightarrow> if d < radix then Some d else None)"

fun read_digits :: "nat \<Rightarrow> string \<Rightarrow> nat list" where
  "read_digits radix [] = []"
| "read_digits radix (c # cs) =
     (case digit_of radix c of None \<Rightarrow> [] | Some d \<Rightarrow> d # read_digits radix cs)"

definition digits_value :: "nat \<Rightarrow> nat list \<Rightarrow> nat" where
  "digits_value radix ds = foldl (\<lambda>acc d. acc * radix + d) 0 ds"

definition strip_sign :: "string \<Rightarrow> int \<times> string" where
  "strip_sign s =
     (case s of
        [] \<Rightarrow> (1, s)
      | c # cs \<Rightarrow> if c = CHR ''-'' then (- 1, cs) else if c = CHR ''+'' then (1, cs) else (1, s))"

text \<open>
  \<^verbatim>\<open>parseInt(string)\<close> with no radix argument: leading white space is skipped, a sign
  is read, a \<^verbatim>\<open>0x\<close> prefix selects radix 16, and the longest prefix of digits is the
  value. \<open>None\<close> is \<^verbatim>\<open>NaN\<close>. The value here is the integer the digits denote; the
  program's is a double, which is that integer as long as its absolute value is below
  \<open>2^53\<close> (\<open>exact\<close>, below). Properties of page and limit are stated within that range.
\<close>

definition parseInt :: "string \<Rightarrow> int option" where
  "parseInt s =
     (let (sign, s2) = strip_sign (dropWhile isWhiteSpace s);
          hex = (take 2 s2 = ''0x'' \<or> take 2 s2 = ''0X'');
          radix = (if hex then 16 else 10);
          ds = read_digits radix (if hex then drop 2 s2 else s2)
      in if ds = [] then None else Some (sign * int (digits_value radix ds)))"

text \<open>An integer that the number type holds exactly, and computes with exactly.\<close>

definition exact :: "int \<Rightarrow> bool" where
  "exact n \<longleftrightarrow> \<bar>n\<bar> < 2 ^ 53"

text \<open>Values of the number type that \<^verbatim>\<open>parseFloat\<close> can return.\<close>

datatype jsnum = NaN | PosInfinity | NegInfinity | Fin real

definition isDigit :: "char \<Rightarrow> bool" where
  "isDigit c \<longleftrightarrow> digit_of 10 c \<noteq> None"

definition exponent_part :: "string \<Rightarrow> int" where
  "exponent_part s =
     (case s of
        [] \<Rightarrow> 0
      | c # cs \<Rightarrow>
          if c = CHR ''e'' \<or> c = CHR ''E'' then
            (let (sign, t) = strip_sign cs; ds = read_digits 10 t
             in if ds = [] then 0 else sign * int (digits_value 10 ds))
          else 0)"

definition scale10 :: "int \<Rightarrow> int \<Rightarrow> real" where
  "scale10 m k = (if 0 \<le> k then of_int m * 10 ^ nat k else of_int m / 10 ^ nat (- k))"

text \<open>
  The number a decimal literal of the value \<open>v\<close> becomes: an infinity from the overflow
  threshold of the doubles on, zero up to half the smallest double, and otherwise \<open>v\<close>
  itself (the program's value is the double nearest to \<open>v\<close>).
\<close>

definition to_number :: "real \<Rightarrow> jsnum" where
  "to_number v =
     (if 2 ^ 1024 - 2 ^ 970 \<le> \<bar>v\<bar> then (if v < 0 then NegInfinity else PosInfinity)
      else if \<bar>v\<bar> \<le> 1 / 2 ^ 1075 then Fin 0
      else Fin v)"

text \<open>
  \<^verbatim>\<open>parseFloat(string)\<close>: the longest prefix, after leading white space, that is a
  decimal literal (sign, \<^verbatim>\<open>Infinity\<close>, or digits with an optional fraction and
  exponent); \<^verbatim>\<open>NaN\<close> when there is none.
\<close>

definition parseFloat :: "string \<Rightarrow> jsnum" where
  "parseFloat s =
     (let (sign, s2) = strip_sign (dropWhile isWhiteSpace s)
      in if take 8 s2 = ''Infinity'' then (if sign < 0 then NegInfinity else PosInfinity)
         else
           (let ip = takeWhile isDigit s2;
                r1 = dropWhile isDigit s2;
                has_point = (r1 \<noteq> [] \<and> hd r1 = CHR ''.'');
                fp = (if has_point then takeWhile isDigit (tl r1) else []);
                r2 = (if has_point then dropWhile isDigit (tl r1) else r1)
            in if ip = [] \<and> fp = [] then NaN
               else to_number
                      (scale10 (sign * int (digits_value 10 (read_digits 10 (ip @ fp))))
                               (exponent_part r2 - int (length fp)))))"

definition isNaN :: "jsnum \<Rightarrow> bool" where
  "isNaN x \<longleftrightarrow> x = NaN"

text \<open>
  \<^verbatim>\<open>Array.prototype.slice(start, end)\<close>: a negative index counts from the end, and
  both indices are clamped to the array, so the call returns for every pair of integers.
\<close>

definition slice :: "'a list \<Rightarrow> int \<Rightarrow> int \<Rightarrow> 'a list" where
  "slice xs start end =
     (let len = int (length xs);
          k = (if start < 0 then max (len + start) 0 else min start len);
          final = (if end < 0 then max (len + end) 0 else min end len)
      in take (nat (final - k)) (drop (nat k) xs))"

text \<open>
  \<^verbatim>\<open>Array.prototype.sort(comparator)\<close> is a stable sort: an element moves in front of
  another only when the comparator says it is smaller. It is modelled by insertion from
  the right, which keeps elements that compare equal in their input order.
\<close>

fun insert_sorted :: "('a \<Rightarrow> 'a \<Rightarrow> real) \<Rightarrow> 'a \<Rightarrow> 'a list \<Rightarrow> 'a list" where
  "insert_sorted cmp x [] = [x]"
| "insert_sorted cmp x (y # ys) =
     (if cmp x y \<le> 0 then x # y # ys else y # insert_sorted cmp x ys)"

definition array_sort :: "('a \<Rightarrow> 'a \<Rightarrow> real) \<Rightarrow> 'a list \<Rightarrow> 'a list" where
  "array_sort cmp xs = foldr (insert_sorted cmp) xs []"

text \<open>
  \<^verbatim>\<open>parseFloat(x.toFixed(2))\<close> for a finite \<open>x\<close>: the nearest multiple of \<open>1/100\<close>, the
  larger one on a tie, computed on the absolute value; from \<open>10^21\<close> on \<^verbatim>\<open>toFixed\<close>
  prints the number itself.
\<close>

definition toFixed2 :: "real \<Rightarrow> real" where
  "toFixed2 x =
     (if 10 ^ 21 \<le> \<bar>x\<bar> then x
      else if x < 0 then - (of_int \<lfloor>- x * 100 + 1 / 2\<rfloor> / 100)
      else of_int \<lfloor>x * 100 + 1 / 2\<rfloor> / 100)"

text \<open>\<^verbatim>\<open>Math.atan2(y, x)\<close> on finite arguments.\<close>

definition atan2 :: "real \<Rightarrow> real \<Rightarrow> real" where
  "atan2 y x =
     (if 0 < x then arctan (y / x)
      else if x < 0 \<and> 0 \<le> y then arctan (y / x) + pi
      else if x < 0 then arctan (y / x) - pi
      else if 0 < y then pi / 2
      else if y < 0 then - (pi / 2)
      else 0)"

subsection \<open>Regular expressions (the language's engine, on a fragment)\<close>

text \<open>
  \<^verbatim>\<open>new RegExp(source, 'i')\<close> is the language's own engine. It is modelled on the
  fragment of patterns built from literal characters, \<^verbatim>\<open>.\<close>, \<^verbatim>\<open>|\<close>, groups
  \<^verbatim>\<open>( )\<close> and the quantifiers \<^verbatim>\<open>*\<close>, \<^verbatim>\<open>+\<close>, \<^verbatim>\<open>?\<close> (greedy or lazy). For a pattern
  that uses anything else (classes, braces, anchors, escapes, \<^verbatim>\<open>(?\<close> groups) the engine
  is a parameter (\<open>native\<close>, below): every property holds whatever the engine does
  with such a pattern. \<open>SyntaxError\<close> is the exception the constructor throws.
\<close>

datatype error = SyntaxError | DbError

text \<open>
  The two ways the reading of a pattern ends without a result: the pattern is malformed
  (the constructor throws), or it leaves the fragment.
\<close>

datatype unread = Malformed | Beyond

datatype rexp =
    Chr char
  | Dot
  | Empty
  | Seq rexp rexp
  | Alt rexp rexp
  | Star rexp

datatype quant = Bare | Greedy | Lazy

type_synonym frame = "rexp list \<times> (rexp \<times> quant) list"

text \<open>A frame holds the finished alternatives and the terms of the current one, newest first.\<close>

definition seq_of :: "(rexp \<times> quant) list \<Rightarrow> rexp" where
  "seq_of ts = foldl (\<lambda>acc t. Seq (fst t) acc) Empty ts"

definition close_frame :: "frame \<Rightarrow> rexp" where
  "close_frame f = foldl (\<lambda>acc r. Alt r acc) (seq_of (snd f)) (fst f)"

definition quantify :: "char \<Rightarrow> rexp \<Rightarrow> rexp" where
  "quantify c r =
     (if c = CHR ''*'' then Star r
      else if c = CHR ''+'' then Seq r (Star r)
      else Alt r Empty)"

definition push_term :: "rexp \<Rightarrow> frame list \<Rightarrow> frame list" where
  "push_term r fs = (case fs of [] \<Rightarrow> [] | (alts, cur) # rest \<Rightarrow> (alts, (r, Bare) # cur) # rest)"

fun parse_pattern :: "frame list \<Rightarrow> string \<Rightarrow> unread + rexp" where
  "parse_pattern [] cs = Inl Malformed"
| "parse_pattern [f] [] = Inr (close_frame f)"
| "parse_pattern (f # g # fs) [] = Inl Malformed"
| "parse_pattern (f # fs) (c # cs) =
     (if c = CHR ''('' then
        (if cs \<noteq> [] \<and> hd cs = CHR ''?'' then Inl Beyond
         else parse_pattern (([], []) # f # fs) cs)
      else if c = CHR '')'' then
        (case fs of
           [] \<Rightarrow> Inl Malformed
         | _ \<Rightarrow> parse_pattern (push_term (close_frame f) fs) cs)
      else if c = CHR ''|'' then
        parse_pattern ((seq_of (snd f) # fst f, []) # fs) cs
      else if c = CHR ''*'' \<or> c = CHR ''+'' \<or> c = CHR ''?'' then
        (case snd f of
           [] \<Rightarrow> Inl Malformed
         | (r, q) # rest \<Rightarrow>
             if q = Bare then parse_pattern ((fst f, (quantify c r, Greedy) # rest) # fs) cs
             else if q = Greedy \<and> c = CHR ''?'' then
               parse_pattern ((fst f, (r, Lazy) # rest) # fs) cs
             else Inl Malformed)
      else if c = CHR ''.'' then parse_pattern (push_term Dot (f # fs)) cs
      else if c \<in> {CHR ''['', CHR '']'', CHR ''{'', CHR ''}'', CHR ''^'', CHR ''$'', CHR 0x5C}
        then Inl Beyond
      else parse_pattern (push_term (Chr c) (f # fs)) cs)"

text \<open>
  The engine on the patterns beyond the fragment: \<open>None\<close> when the constructor throws,
  and otherwise the test that the compiled expression performs on a string.
\<close>

type_synonym native = "string \<Rightarrow> (string \<Rightarrow> bool) option"

text \<open>A compiled expression: a pattern of the fragment, or one the engine took as it is.\<close>

datatype regex = Modelled rexp | Native "string \<Rightarrow> bool"

text \<open>\<^verbatim>\<open>new RegExp(source, 'i')\<close>.\<close>

definition RegExp_i :: "native \<Rightarrow> string \<Rightarrow> error + regex" where
  "RegExp_i engine source =
     (case parse_pattern [([], [])] source of
        Inr r \<Rightarrow> Inr (Modelled r)
      | Inl Malformed \<Rightarrow> Inl SyntaxError
      | Inl Beyond \<Rightarrow>
          (case engine source of None \<Rightarrow> Inl SyntaxError | Some t \<Rightarrow> Inr (Native t)))"

text \<open>Case folding under the \<^verbatim>\<open>i\<close> flag: an ASCII lower-case letter becomes upper case.\<close>

definition canonicalize :: "char \<Rightarrow> char" where
  "canonicalize c =
     (let n = (of_char c :: nat) in if 97 \<le> n \<and> n \<le> 122 then char_of (n - 32) else c)"

text \<open>
  \<open>after r s\<close> lists the rests of \<open>s\<close> that remain when \<open>r\<close> has matched a prefix of
  \<open>s\<close>. An iteration of a starred pattern that consumes nothing is not repeated.
\<close>

function after :: "rexp \<Rightarrow> string \<Rightarrow> string list" where
  "after (Chr a) s =
     (case s of [] \<Rightarrow> [] | c # cs \<Rightarrow> if canonicalize c = canonicalize a then [cs] else [])"
| "after Dot s =
     (case s of [] \<Rightarrow> [] | c # cs \<Rightarrow> if c = CHR 0x0A \<or> c = CHR 0x0D then [] else [cs])"
| "after Empty s = [s]"
| "after (Seq r1 r2) s = concat (map (after r2) (after r1 s))"
| "after (Alt r1 r2) s = after r1 s @ after r2 s"
| "after (Star r) s =
     s # concat (map (\<lambda>t. if length t < length s then after (Star r) t else []) (after r s))"
  by pat_completeness auto
termination
  by (relation "measures [\<lambda>(r, s). size r, \<lambda>(r, s). length s]") auto

text \<open>The pattern of the fragment matches somewhere in \<open>s\<close>.\<close>

definition modelled_test :: "rexp \<Rightarrow> string \<Rightarrow> bool" where
  "modelled_test r s \<longleftrightarrow> list_ex (\<lambda>t. after r t \<noteq> []) (suffixes s)"

text \<open>
  \<^verbatim>\<open>regex.test(s)\<close>, and what the collection does with a regular expression on a string
  field.
\<close>

fun regex_test :: "regex \<Rightarrow> string \<Rightarrow> bool" where
  "regex_test (Modelled r) s = modelled_test r s"
| "regex_test (Native t) s = t s"

subsection \<open>Documents and the backing collection (MongoDB, modelled)\<close>

record location =
  latitude :: real
  longitude :: real

text \<open>The populated \<^verbatim>\<open>pharmacyId\<close>: the fields selected are the name and the location.\<close>

record pharmacy =
  pharmacyName :: string
  location :: "location option"

record medicine =
  name :: string
  description :: string
  price :: real
  quantity :: int
  isActive :: bool
  createdAt :: int
  updatedAt :: int
  pharmacyId :: "pharmacy option"

datatype jsvalue = VStr string | VNum real | VBool bool

definition field :: "medicine \<Rightarrow> string \<Rightarrow> jsvalue option" where
  "field d k =
     (if k = ''name'' then Some (VStr (name d))
      else if k = ''description'' then Some (VStr (description d))
      else if k = ''price'' then Some (VNum (price d))
      else if k = ''quantity'' then Some (VNum (of_int (quantity d)))
      else if k = ''isActive'' then Some (VBool (isActive d))
      else if k = ''createdAt'' then Some (VNum (of_int (createdAt d)))
      else if k = ''updatedAt'' then Some (VNum (of_int (updatedAt d)))
      else None)"

text \<open>
  A filter object: its keys in order, each with a literal, a regular expression, or (under
  the key \<^verbatim>\<open>$or\<close>) a list of filter objects.
\<close>

datatype cond = Lit jsvalue | Pattern regex | Clauses "(string \<times> cond) list list"

type_synonym filter_obj = "(string \<times> cond) list"

text \<open>
  The collection's matching: a document matches a filter object when every key's condition
  holds, and \<^verbatim>\<open>$or\<close> holds when one of its clauses matches.
\<close>

fun holds :: "medicine \<Rightarrow> string \<Rightarrow> cond \<Rightarrow> bool" where
  "holds d k (Lit v) = (k \<noteq> ''$or'' \<and> field d k = Some v)"
| "holds d k (Pattern r) =
     (k \<noteq> ''$or'' \<and> (case field d k of Some (VStr s) \<Rightarrow> regex_test r s | _ \<Rightarrow> False))"
| "holds d k (Clauses fs) =
     (k = ''$or'' \<and> list_ex (\<lambda>f. list_all (\<lambda>kc. holds d (fst kc) (snd kc)) f) fs)"

definition matches :: "medicine \<Rightarrow> filter_obj \<Rightarrow> bool" where
  "matches d flt \<longleftrightarrow> list_all (\<lambda>kc. holds d (fst kc) (snd kc)) flt"

text \<open>The collection: its documents in their natural order, or out of reach.\<close>

datatype collection = Unreachable | Docs "medicine list"

text \<open>\<^verbatim>\<open>model.find(filter).exec()\<close>: every matching document, no limit.\<close>

definition find_exec :: "collection \<Rightarrow> filter_obj \<Rightarrow> error + medicine list" where
  "find_exec coll flt =
     (case coll of Unreachable \<Rightarrow> Inl DbError | Docs ds \<Rightarrow> Inr (filter (\<lambda>d. matches d flt) ds))"

text \<open>\<^verbatim>\<open>model.countDocuments(filter)\<close>.\<close>

definition countDocuments :: "collection \<Rightarrow> filter_obj \<Rightarrow> error + int" where
  "countDocuments coll flt =
     (case coll of
        Unreachable \<Rightarrow> Inl DbError
      | Docs ds \<Rightarrow> Inr (int (length (filter (\<lambda>d. matches d flt) ds))))"

text \<open>The collection's ordering of values: missing, then numbers, strings, booleans.\<close>

definition sort_value :: "jsvalue option \<Rightarrow> nat \<times> real \<times> nat list" where
  "sort_value v =
     (case v of
        None \<Rightarrow> (0, 0, [])
      | Some (VNum r) \<Rightarrow> (1, r, [])
      | Some (VStr s) \<Rightarrow> (2, 0, map of_char s)
      | Some (VBool b) \<Rightarrow> (3, of_bool b, []))"

text \<open>
  \<^verbatim>\<open>query.skip(skip).limit(limit).sort({[sortBy]: order}).exec()\<close>: the collection
  sorts, then skips, then limits. It refuses a negative skip, and reads a negative limit
  as its absolute value.
\<close>

definition sorted_exec ::
  "collection \<Rightarrow> filter_obj \<Rightarrow> int \<Rightarrow> int \<Rightarrow> string \<times> int \<Rightarrow> error + medicine list" where
  "sorted_exec coll flt skip limit sortObj =
     (case coll of
        Unreachable \<Rightarrow> Inl DbError
      | Docs ds \<Rightarrow>
          if skip < 0 then Inl DbError
          else
            (let hits = filter (\<lambda>d. matches d flt) ds;
                 asc = sort_key (\<lambda>d. sort_value (field d (fst sortObj))) hits;
                 ordered = (if snd sortObj < 0 then rev asc else asc)
             in Inr (take (nat \<bar>limit\<bar>) (drop (nat skip) ordered))))"

subsection \<open>The request\<close>

record query =
  q_page :: "string option"
  q_limit :: "string option"
  q_sort :: "string option"
  q_order :: "string option"
  q_search :: "string option"
  q_latitude :: "string option"
  q_longitude :: "string option"

text \<open>The authenticated user, as far as the pipeline reads it.\<close>

record user =
  user_location :: "location option"

text \<open>An element of \<^verbatim>\<open>data\<close>: a document with the \<^verbatim>\<open>distance\<close> the ranker attached.\<close>

record ranked =
  item :: medicine
  distance :: "real option"

datatype listed = Plain medicine | WithDistance ranked

record pagination =
  currentPage :: int
  totalPages :: int
  totalItems :: int
  itemsPerPage :: int
  hasNextPage :: bool
  hasPrevPage :: bool

record page_result =
  data :: "listed list"
  pagination :: pagination

text \<open>
  \<^verbatim>\<open>req.baseQuery\<close> is a query object of the collection; the pipeline only reads its
  filter, so the field holds the filter.
\<close>

record request =
  req_query :: query
  req_user :: "user option"
  baseQuery :: "filter_obj option"
  searchResults :: "listed list option"
  req_pagination :: "page_result option"

subsection \<open>\<^verbatim>\<open>search.middleware.js\<close>\<close>

definition calculateDistance :: "real \<Rightarrow> real \<Rightarrow> real \<Rightarrow> real \<Rightarrow> real" where
  "calculateDistance lat1 lon1 lat2 lon2 =
     (let R = 6371;
          dLat = (lat2 - lat1) * pi / 180;
          dLon = (lon2 - lon1) * pi / 180;
          a = sin (dLat / 2) * sin (dLat / 2) +
              cos (lat1 * pi / 180) * cos (lat2 * pi / 180) *
              sin (dLon / 2) * sin (dLon / 2);
          c = 2 * atan2 (sqrt a) (sqrt (1 - a))
      in R * c)"

text \<open>
  The call \<^verbatim>\<open>calculateDistance(userLat, userLon, pharmacyLat, pharmacyLon)\<close>: the
  requester's coordinates come from \<^verbatim>\<open>parseFloat\<close> and may be infinite, and then every
  path through the function yields \<^verbatim>\<open>NaN\<close>.
\<close>

definition calculateDistance_num :: "jsnum \<Rightarrow> jsnum \<Rightarrow> real \<Rightarrow> real \<Rightarrow> jsnum" where
  "calculateDistance_num userLat userLon pharmacyLat pharmacyLon =
     (case (userLat, userLon) of
        (Fin la, Fin lo) \<Rightarrow> Fin (calculateDistance la lo pharmacyLat pharmacyLon)
      | _ \<Rightarrow> NaN)"

text \<open>
  Lines 27 to 40: the filter the query runs with. The search term is used when it is a
  non-empty string that is not blank; the constructor's exception leaves the handler
  through \<^verbatim>\<open>catch\<close>.
\<close>

definition compose_filter ::
  "native \<Rightarrow> filter_obj \<Rightarrow> string option \<Rightarrow> error + filter_obj" where
  "compose_filter engine flt search =
     (case search of
        None \<Rightarrow> Inr flt
      | Some s \<Rightarrow>
          if s \<noteq> [] \<and> trim s \<noteq> [] then
            (case RegExp_i engine (trim s) of
               Inl e \<Rightarrow> Inl e
             | Inr searchRegex \<Rightarrow>
                 Inr (AList.update ''$or''
                        (Clauses [[(''name'', Pattern searchRegex)],
                                  [(''description'', Pattern searchRegex)]]) flt))
          else Inr flt)"

text \<open>Lines 46 to 55: \<open>None\<close> is \<^verbatim>\<open>null\<close>.\<close>

definition user_coordinates :: "request \<Rightarrow> jsnum option \<times> jsnum option" where
  "user_coordinates req =
     (let q = req_query req;
          from_user =
            (case req_user req of
               None \<Rightarrow> (None, None)
             | Some u \<Rightarrow>
                 (case user_location u of
                    None \<Rightarrow> (None, None)
                  | Some l \<Rightarrow> (Some (Fin (latitude l)), Some (Fin (longitude l)))))
      in case (q_latitude q, q_longitude q) of
           (Some la, Some lo) \<Rightarrow>
             if la \<noteq> [] \<and> lo \<noteq> [] then (Some (parseFloat la), Some (parseFloat lo))
             else from_user
         | _ \<Rightarrow> from_user)"

text \<open>
  Lines 62 to 73, the function mapped over \<^verbatim>\<open>data\<close>. The local \<open>distance\<close> is
  \<^verbatim>\<open>null\<close> (\<open>None\<close>) or what \<^verbatim>\<open>calculateDistance\<close> returned, a finite number or
  \<^verbatim>\<open>NaN\<close>; the test \<^verbatim>\<open>distance ? ... : null\<close> takes \<^verbatim>\<open>null\<close>, \<^verbatim>\<open>NaN\<close> and \<open>0\<close>
  to \<^verbatim>\<open>null\<close>.
\<close>

definition annotate :: "jsnum \<Rightarrow> jsnum \<Rightarrow> medicine \<Rightarrow> ranked" where
  "annotate userLat userLon it =
     (let dist =
            (case pharmacyId it of
               None \<Rightarrow> None
             | Some p \<Rightarrow>
                 (case location p of
                    None \<Rightarrow> None
                  | Some l \<Rightarrow>
                      Some (calculateDistance_num userLat userLon (latitude l) (longitude l))))
      in \<lparr>item = it,
          distance =
            (case dist of
               Some (Fin d) \<Rightarrow> if d \<noteq> 0 then Some (toFixed2 d) else None
             | _ \<Rightarrow> None)\<rparr>)"

text \<open>Lines 76 to 81, the comparator.\<close>

definition by_distance :: "ranked \<Rightarrow> ranked \<Rightarrow> real" where
  "by_distance a b =
     (if distance a = None \<and> distance b = None then 0
      else if distance a = None then 1
      else if distance b = None then - 1
      else the (distance a) - the (distance b))"

definition rank :: "jsnum \<Rightarrow> jsnum \<Rightarrow> medicine list \<Rightarrow> ranked list" where
  "rank userLat userLon docs = array_sort by_distance (map (annotate userLat userLon) docs)"

text \<open>Line 61: the test that turns ranking on.\<close>

definition ranking_active :: "jsnum option \<times> jsnum option \<Rightarrow> bool" where
  "ranking_active c \<longleftrightarrow>
     (case c of
        (Some userLat, Some userLon) \<Rightarrow> \<not> isNaN userLat \<and> \<not> isNaN userLon
      | _ \<Rightarrow> False)"

text \<open>
  The handler. \<open>Inl e\<close> is \<^verbatim>\<open>next(err)\<close>; \<open>Inr req'\<close> is the request handed to
  \<^verbatim>\<open>next()\<close>.
\<close>

definition search_middleware :: "native \<Rightarrow> collection \<Rightarrow> request \<Rightarrow> error + request" where
  "search_middleware engine coll req =
     (let flt0 = (case baseQuery req of None \<Rightarrow> [] | Some f \<Rightarrow> f)
      in case compose_filter engine flt0 (q_search (req_query req)) of
           Inl e \<Rightarrow> Inl e
         | Inr flt \<Rightarrow>
             (let c = user_coordinates req
              in case find_exec coll flt of
                   Inl e \<Rightarrow> Inl e
                 | Inr docs \<Rightarrow>
                     (let results =
                            (if ranking_active c
                             then map WithDistance (rank (the (fst c)) (the (snd c)) docs)
                             else map Plain docs)
                      in Inr (req\<lparr>searchResults := Some results, baseQuery := Some flt\<rparr>))))"

subsection \<open>\<^verbatim>\<open>paginate.middleware.js\<close>\<close>

text \<open>\<^verbatim>\<open>parseInt(x) || dflt\<close>: \<^verbatim>\<open>NaN\<close> and \<open>0\<close> are falsy.\<close>

definition parseInt_or :: "string option \<Rightarrow> int \<Rightarrow> int" where
  "parseInt_or x dflt =
     (case x of
        None \<Rightarrow> dflt
      | Some s \<Rightarrow> (case parseInt s of None \<Rightarrow> dflt | Some n \<Rightarrow> if n = 0 then dflt else n))"

definition page_of :: "request \<Rightarrow> int" where
  "page_of req = parseInt_or (q_page (req_query req)) 1"

definition limit_of :: "request \<Rightarrow> int" where
  "limit_of req = parseInt_or (q_limit (req_query req)) 10"

definition skip_of :: "request \<Rightarrow> int" where
  "skip_of req = (page_of req - 1) * limit_of req"

definition sortBy_of :: "request \<Rightarrow> string" where
  "sortBy_of req =
     (case q_sort (req_query req) of None \<Rightarrow> ''createdAt'' | Some s \<Rightarrow> if s = [] then ''createdAt'' else s)"

definition order_of :: "request \<Rightarrow> int" where
  "order_of req = (if q_order (req_query req) = Some ''desc'' then - 1 else 1)"

text \<open>Lines 37 to 48: the metadata, from the page, the limit and the total (\<open>total_n\<close>).\<close>

definition page_info :: "int \<Rightarrow> int \<Rightarrow> int \<Rightarrow> pagination" where
  "page_info page limit total_n =
     (let totalPages = \<lceil>real_of_int total_n / real_of_int limit\<rceil>
      in \<lparr>currentPage = page,
          totalPages = totalPages,
          totalItems = total_n,
          itemsPerPage = limit,
          hasNextPage = (page < totalPages),
          hasPrevPage = (page > 1)\<rparr>)"

text \<open>
  The two branches of lines 15 to 35: the slice of \<^verbatim>\<open>req.searchResults\<close> when it is
  an array, the query with skip, limit and sort otherwise.
\<close>

definition fetch_page :: "collection \<Rightarrow> request \<Rightarrow> error + listed list \<times> int" where
  "fetch_page coll req =
     (case searchResults req of
        Some results \<Rightarrow>
          (let totalItems = int (length results);
               startIndex = skip_of req;
               endIndex = skip_of req + limit_of req
           in Inr (slice results startIndex endIndex, totalItems))
      | None \<Rightarrow>
          (let flt = (case baseQuery req of None \<Rightarrow> [] | Some f \<Rightarrow> f)
           in case sorted_exec coll flt (skip_of req) (limit_of req) (sortBy_of req, order_of req) of
                Inl e \<Rightarrow> Inl e
              | Inr docs \<Rightarrow>
                  (case countDocuments coll flt of
                     Inl e \<Rightarrow> Inl e
                   | Inr total_n \<Rightarrow> Inr (map Plain docs, total_n))))"

definition paginate :: "collection \<Rightarrow> request \<Rightarrow> error + request" where
  "paginate coll req =
     (case fetch_page coll req of
        Inl e \<Rightarrow> Inl e
      | Inr (d, total_n) \<Rightarrow>
          Inr (req\<lparr>req_pagination :=
                     Some \<lparr>data = d, pagination = page_info (page_of req) (limit_of req) total_n\<rparr>\<rparr>))"

subsection \<open>The controller and the route\<close>

record response =
  count_field :: int
  medicines :: "listed list"
  pagination_field :: "pagination option"

text \<open>
  \<^verbatim>\<open>getAllMedicines\<close>; \<^verbatim>\<open>getAllMedicinesPharmacy\<close> differs only in the filter of its
  fallback, which is the argument \<open>fallback\<close>.
\<close>

definition getAllMedicines_with :: "filter_obj \<Rightarrow> collection \<Rightarrow> request \<Rightarrow> error + response" where
  "getAllMedicines_with fallback coll req =
     (case req_pagination req of
        Some p \<Rightarrow>
          Inr \<lparr>count_field = int (length (data p)), medicines = data p,
               pagination_field = Some (pagination p)\<rparr>
      | None \<Rightarrow>
          (case find_exec coll fallback of
             Inl e \<Rightarrow> Inl e
           | Inr ms \<Rightarrow>
               Inr \<lparr>count_field = int (length ms), medicines = map Plain ms,
                    pagination_field = None\<rparr>))"

definition getAllMedicines :: "collection \<Rightarrow> request \<Rightarrow> error + response" where
  "getAllMedicines = getAllMedicines_with [(''isActive'', Lit (VBool True))]"

definition getAllMedicinesPharmacy :: "collection \<Rightarrow> request \<Rightarrow> error + response" where
  "getAllMedicinesPharmacy = getAllMedicines_with []"

text \<open>
  \<^verbatim>\<open>router.get('/')\<close>: behind \<^verbatim>\<open>authenticate.optional\<close>, which leaves the user it
  recognised, if any, in the request (\<open>u\<close>), the route sets the base query to the active
  medicines, then runs search, paginate and the controller. The route
  \<^verbatim>\<open>/pharmacy/all\<close> runs the same two middlewares in front of
  \<^verbatim>\<open>getAllMedicinesPharmacy\<close>, behind handlers that decide on the user alone; of that
  route the middlewares and the controller are modelled, each on its own.
\<close>

definition incoming :: "query \<Rightarrow> user option \<Rightarrow> request" where
  "incoming q u =
     \<lparr>req_query = q, req_user = u, baseQuery = None, searchResults = None,
      req_pagination = None\<rparr>"

definition list_route ::
  "native \<Rightarrow> collection \<Rightarrow> query \<Rightarrow> user option \<Rightarrow> error + response" where
  "list_route engine coll q u =
     (let req = (incoming q u)\<lparr>baseQuery := Some [(''isActive'', Lit (VBool True))]\<rparr>
      in case search_middleware engine coll req of
           Inl e \<Rightarrow> Inl e
         | Inr req1 \<Rightarrow>
             (case paginate coll req1 of
                Inl e \<Rightarrow> Inl e
              | Inr req2 \<Rightarrow> getAllMedicines coll req2))"

subsection \<open>Notions the properties are stated with\<close>

text \<open>
  These follow the specification's words, not the code. The ranker's order "ascending by
  distance, records without a distance last" as a sort key: a number comes before
  \<^verbatim>\<open>null\<close>, and numbers compare by their value.
\<close>

definition distance_key :: "ranked \<Rightarrow> nat \<times> real" where
  "distance_key r = (case distance r of None \<Rightarrow> (1, 0) | Some d \<Rightarrow> (0, d))"

text \<open>The page and limit parameters of a request are ASCII text, where they are given.\<close>

definition ascii_paging :: "request \<Rightarrow> bool" where
  "ascii_paging req \<longleftrightarrow>
     (case q_page (req_query req) of None \<Rightarrow> True | Some s \<Rightarrow> ascii s) \<and>
     (case q_limit (req_query req) of None \<Rightarrow> True | Some s \<Rightarrow> ascii s)"

text \<open>
  The total a pagination strategy computes: the length of the search results when there
  are any, and otherwise the number of documents of the collection that match the filter
  of the base query.
\<close>

definition strategy_total :: "collection \<Rightarrow> request \<Rightarrow> int" where
  "strategy_total coll req =
     (case searchResults req of
        Some rs \<Rightarrow> int (length rs)
      | None \<Rightarrow>
          (case coll of
             Unreachable \<Rightarrow> 0
           | Docs ds \<Rightarrow>
               int (length (filter (\<lambda>d. matches d (case baseQuery req of None \<Rightarrow> [] | Some f \<Rightarrow> f))
                              ds))))"

text \<open>The characters with a meaning of their own in a pattern.\<close>

definition pattern_special :: "char \<Rightarrow> bool" where
  "pattern_special c \<longleftrightarrow> c \<in> set ''.*+?()|[]{}^$'' \<or> c = CHR 0x5C"

text \<open>"A case-insensitive substring": \<open>t\<close> occurs in \<open>s\<close>, letter case aside.\<close>

definition contains_ci :: "string \<Rightarrow> string \<Rightarrow> bool" where
  "contains_ci t s \<longleftrightarrow> sublist (map canonicalize t) (map canonicalize s)"

text \<open>The pattern that matches the characters of \<open>t\<close>, one after the other.\<close>

fun literal :: "string \<Rightarrow> rexp" where
  "literal [] = Empty"
| "literal (c # cs) = Seq (Chr c) (literal cs)"

subsection \<open>Sample data\<close>

text \<open>Requests and documents used where a property is run on a concrete input.\<close>

definition no_query :: query where
  "no_query =
     \<lparr>q_page = None, q_limit = None, q_sort = None, q_order = None, q_search = None,
      q_latitude = None, q_longitude = None\<rparr>"

definition sample_medicine :: "string \<Rightarrow> bool \<Rightarrow> pharmacy option \<Rightarrow> medicine" where
  "sample_medicine n act p =
     \<lparr>name = n, description = ''tablets'', price = 10, quantity = 1, isActive = act,
      createdAt = 0, updatedAt = 0, pharmacyId = p\<rparr>"

definition three_results :: "listed list" where
  "three_results =
     [Plain (sample_medicine ''a'' True None), Plain (sample_medicine ''b'' True None),
      Plain (sample_medicine ''c'' True None)]"

definition three_of_four_active :: collection where
  "three_of_four_active =
     Docs [sample_medicine ''a'' True None, sample_medicine ''b'' True None,
           sample_medicine ''x'' False None, sample_medicine ''c'' True None]"

definition two_named :: collection where
  "two_named = Docs [sample_medicine ''a'' True None, sample_medicine ''b'' True None]"

text \<open>Two documents in the order of their insertion, the older one first.\<close>

definition two_dated :: collection where
  "two_dated =
     Docs [(sample_medicine ''old'' True None)\<lparr>createdAt := 1\<rparr>,
           (sample_medicine ''new'' True None)\<lparr>createdAt := 2\<rparr>]"

definition at_distance :: "string \<Rightarrow> real option \<Rightarrow> ranked" where
  "at_distance n d = \<lparr>item = sample_medicine n True None, distance = d\<rparr>"

definition pharmacy_at :: "real \<Rightarrow> real \<Rightarrow> pharmacy" where
  "pharmacy_at la lo =
     \<lparr>pharmacyName = ''pharmacy'', location = Some \<lparr>latitude = la, longitude = lo\<rparr>\<rparr>"

text \<open>
  Four medicines for the requester at \<open>(0, 0)\<close>: \<open>A\<close> without a pharmacy, \<open>B\<close> half the
  equator away, \<open>C\<close> a quarter of the equator away, \<open>D\<close> with a pharmacy that has no
  location.
\<close>

definition four_placed :: "medicine list" where
  "four_placed =
     [sample_medicine ''A'' True None,
      sample_medicine ''B'' True (Some (pharmacy_at 0 180)),
      sample_medicine ''C'' True (Some (pharmacy_at 0 90)),
      sample_medicine ''D'' True (Some \<lparr>pharmacyName = ''pharmacy'', location = None\<rparr>)]"

text \<open>
  An engine that takes no pattern beyond the fragment. It stands where a closed statement
  needs an engine and the patterns at hand are of the fragment, so that it is never asked.
\<close>

definition strict_engine :: native where
  "strict_engine = (\<lambda>source. None)"

text \<open>The pattern \<^verbatim>\<open>A+B (test)\<close> as the constructor reads it.\<close>

definition test_pattern :: rexp where
  "test_pattern =
     Seq (Seq (Chr CHR ''A'') (Star (Chr CHR ''A'')))
       (Seq (Chr CHR ''B'') (Seq (Chr CHR '' '') (Seq (literal ''test'') Empty)))"

text \<open>The pattern \<^verbatim>\<open>a.c\<close>.\<close>

definition dot_pattern :: rexp where
  "dot_pattern = Seq (Chr CHR ''a'') (Seq Dot (Seq (Chr CHR ''c'') Empty))"

section \<open>Properties\<close>

subsection \<open>Pagination\<close>

lemma page_lt_ceiling:
  fixes p t l :: int
  assumes "1 \<le> l"
  shows "p < \<lceil>real_of_int t / real_of_int l\<rceil> \<longleftrightarrow> p * l < t"
proof -
  have l: "0 < real_of_int l" using assms by simp
  have "p < \<lceil>real_of_int t / real_of_int l\<rceil> \<longleftrightarrow> real_of_int p < real_of_int t / real_of_int l"
    by (rule less_ceiling_iff)
  also have "\<dots> \<longleftrightarrow> real_of_int p * real_of_int l < real_of_int t"
    using l by (simp add: pos_less_divide_eq)
  also have "\<dots> \<longleftrightarrow> real_of_int (p * l) < real_of_int t"
    by simp
  also have "\<dots> \<longleftrightarrow> p * l < t"
    by (rule of_int_less_iff)
  finally show ?thesis .
qed

lemma slice_sublist: "sublist (slice xs a b) xs"
proof -
  have "sublist (take n (drop k xs)) (drop k xs)" for n k
    by (rule sublist_take)
  moreover have "sublist (drop k xs) xs" for k
    by (rule sublist_drop)
  ultimately have "sublist (take n (drop k xs)) xs" for n k
    by (rule sublist_order.order_trans)
  then show ?thesis by (simp add: slice_def Let_def)
qed

lemma slice_take_drop:
  assumes "0 \<le> a" and "0 \<le> l"
  shows "slice xs a (a + l) = take (nat l) (drop (nat a) xs)"
proof (cases "int (length xs) \<le> a")
  case True
  then have "length xs \<le> nat a" by linarith
  with True assms show ?thesis by (simp add: slice_def Let_def min_def)
next
  case False
  then have a: "nat a < length xs" using assms by linarith
  show ?thesis
  proof (cases "a + l \<le> int (length xs)")
    case True
    with False assms show ?thesis by (simp add: slice_def Let_def min_def)
  next
    case over: False
    have "length (drop (nat a) xs) \<le> nat l" using over assms by simp
    then have "take (nat l) (drop (nat a) xs) = drop (nat a) xs" by simp
    moreover have "length (drop (nat a) xs) \<le> nat (int (length xs) - a)" using assms by simp
    then have "take (nat (int (length xs) - a)) (drop (nat a) xs) = drop (nat a) xs" by simp
    ultimately show ?thesis using False over assms by (simp add: slice_def Let_def min_def)
  qed
qed

lemma slice_length: "0 \<le> a \<Longrightarrow> 0 \<le> l \<Longrightarrow> length (slice xs a (a + l)) \<le> nat l"
  by (simp add: slice_take_drop)



lemmas parse_simps =
  parseInt_def strip_sign_def isWhiteSpace_def digit_of_def digits_value_def parseInt_or_def

lemma matches_active:
  "matches (sample_medicine n a p) [(''isActive'', Lit (VBool True))] = a"
  by (simp add: matches_def field_def sample_medicine_def)

lemma sort_value_name:
  "sort_value (field (sample_medicine n a p) ''name'') = (2, 0, map of_char n)"
  by (simp add: sort_value_def field_def sample_medicine_def)

lemma sort_value_createdAt:
  "sort_value (field (sample_medicine n a p) ''createdAt'') = (1, 0, [])"
  by (simp add: sort_value_def field_def sample_medicine_def)

lemma page_info_next:
  assumes "1 \<le> l"
  shows "hasNextPage (page_info p l t) \<longleftrightarrow> p * l < t"
  using page_lt_ceiling [OF assms] by (simp add: page_info_def Let_def)

lemma fetch_page_total: "fetch_page coll req = Inr (d, t) \<Longrightarrow> 0 \<le> t"
  by (auto simp: fetch_page_def Let_def countDocuments_def
      split: option.splits sum.splits collection.splits)

lemma paginate_Inr:
  assumes "paginate coll req = Inr req'"
  shows "\<exists>d t. fetch_page coll req = Inr (d, t) \<and>
           req' = req\<lparr>req_pagination :=
                   Some \<lparr>data = d, pagination = page_info (page_of req) (limit_of req) t\<rparr>\<rparr>"
  using assms by (auto simp: paginate_def split: sum.splits prod.splits)

lemma fetch_page_strategy_total:
  assumes "fetch_page coll req = Inr (d, t)"
  shows "t = strategy_total coll req"
  using assms
  by (auto simp: fetch_page_def strategy_total_def countDocuments_def sorted_exec_def Let_def
      split: option.splits sum.splits collection.splits if_splits)

text \<open>
  Claim C2. Whenever the paginate middleware succeeds with a page and a limit of at least
  one (integers the number type holds exactly, given as ASCII text), the metadata it
  stores is computed from the total of the strategy that ran, the length of the search
  results in memory or the count of the documents matching the filter: \<open>totalItems\<close> is
  that total, \<open>totalPages\<close> is the ceiling of the total over the limit (zero for an empty
  total), \<open>hasNextPage\<close> holds exactly when \<open>page * limit\<close> is below the total, which is
  when \<open>page\<close> is below \<open>totalPages\<close>, and \<open>hasPrevPage\<close> exactly when \<open>page > 1\<close>.
\<close>

theorem pagination_metadata:
  assumes "paginate coll req = Inr req'"
    and "1 \<le> page_of req" and "1 \<le> limit_of req"
    and "exact (page_of req)" and "exact (limit_of req)" and "ascii_paging req"
  shows "\<exists>p. req_pagination req' = Some p \<and>
           0 \<le> strategy_total coll req \<and>
           totalItems (pagination p) = strategy_total coll req \<and>
           currentPage (pagination p) = page_of req \<and>
           itemsPerPage (pagination p) = limit_of req \<and>
           totalPages (pagination p) =
             \<lceil>real_of_int (strategy_total coll req) / real_of_int (limit_of req)\<rceil> \<and>
           (strategy_total coll req = 0 \<longrightarrow> totalPages (pagination p) = 0) \<and>
           (hasNextPage (pagination p) \<longleftrightarrow>
              page_of req * limit_of req < strategy_total coll req) \<and>
           (hasNextPage (pagination p) \<longleftrightarrow> page_of req < totalPages (pagination p)) \<and>
           (hasPrevPage (pagination p) \<longleftrightarrow> 1 < page_of req)"
proof -
  from paginate_Inr [OF assms(1)] obtain d t where
    f: "fetch_page coll req = Inr (d, t)" and
    r: "req' = req\<lparr>req_pagination :=
               Some \<lparr>data = d, pagination = page_info (page_of req) (limit_of req) t\<rparr>\<rparr>"
    by blast
  let ?m = "page_info (page_of req) (limit_of req) t"
  have t: "t = strategy_total coll req" using f by (rule fetch_page_strategy_total)
  have "0 \<le> t" using f by (rule fetch_page_total)
  moreover have "totalItems ?m = t" "currentPage ?m = page_of req" "itemsPerPage ?m = limit_of req"
    by (simp_all add: page_info_def Let_def)
  moreover have "totalPages ?m = \<lceil>real_of_int t / real_of_int (limit_of req)\<rceil>"
    by (simp add: page_info_def Let_def)
  moreover have "t = 0 \<longrightarrow> totalPages ?m = 0" by (simp add: page_info_def Let_def)
  moreover have "hasNextPage ?m \<longleftrightarrow> page_of req * limit_of req < t"
    using assms(3) by (rule page_info_next)
  moreover have "hasNextPage ?m \<longleftrightarrow> page_of req < totalPages ?m"
    by (simp add: page_info_def Let_def)
  moreover have "hasPrevPage ?m \<longleftrightarrow> 1 < page_of req" by (simp add: page_info_def Let_def)
  ultimately show ?thesis using r t by simp
qed

text \<open>
  Page 2 of size 2, once on three search results in memory and once on a collection of
  three active documents and an inactive one, under the filter of the active ones: in
  both, the total is 3, there are two pages, no next page and a previous page.
\<close>

theorem pagination_metadata_witness:
  "(\<exists>req' p.
     paginate Unreachable
       ((incoming (no_query\<lparr>q_page := Some ''2'', q_limit := Some ''2''\<rparr>) None)
          \<lparr>searchResults := Some three_results\<rparr>) = Inr req' \<and>
     req_pagination req' = Some p \<and>
     totalItems (pagination p) = 3 \<and> totalPages (pagination p) = 2 \<and>
     \<not> hasNextPage (pagination p) \<and> hasPrevPage (pagination p)) \<and>
   (\<exists>req' p.
     paginate three_of_four_active
       ((incoming (no_query\<lparr>q_page := Some ''2'', q_limit := Some ''2''\<rparr>) None)
          \<lparr>baseQuery := Some [(''isActive'', Lit (VBool True))]\<rparr>) = Inr req' \<and>
     req_pagination req' = Some p \<and>
     data p = [Plain (sample_medicine ''c'' True None)] \<and>
     totalItems (pagination p) = 3 \<and> totalPages (pagination p) = 2 \<and>
     \<not> hasNextPage (pagination p) \<and> hasPrevPage (pagination p))"
proof -
  let ?q = "no_query\<lparr>q_page := Some ''2'', q_limit := Some ''2''\<rparr>"
  let ?reqB = "(incoming ?q None)\<lparr>searchResults := Some three_results\<rparr>"
  let ?reqA = "(incoming ?q None)\<lparr>baseQuery := Some [(''isActive'', Lit (VBool True))]\<rparr>"
  have pl: "page_of ?reqB = 2" "limit_of ?reqB = 2" "page_of ?reqA = 2" "limit_of ?reqA = 2"
    by (simp_all add: page_of_def limit_of_def incoming_def no_query_def parse_simps)
  have ap: "ascii_paging ?reqB" "ascii_paging ?reqA"
    by (simp_all add: ascii_paging_def incoming_def no_query_def ascii_def)
  have ex: "exact 2" by (simp add: exact_def)
  have sB: "searchResults ?reqB = Some three_results" by simp
  have fB: "fetch_page Unreachable ?reqB = Inr (slice three_results 2 4, 3)"
    using sB pl by (simp add: fetch_page_def Let_def three_results_def skip_of_def)
  have sA: "searchResults ?reqA = None" "baseQuery ?reqA = Some [(''isActive'', Lit (VBool True))]"
    "sortBy_of ?reqA = ''createdAt''" "order_of ?reqA = 1"
    by (simp_all add: incoming_def sortBy_of_def order_of_def no_query_def)
  have fA: "fetch_page three_of_four_active ?reqA = Inr ([Plain (sample_medicine ''c'' True None)], 3)"
    using sA pl
    by (simp add: fetch_page_def sorted_exec_def countDocuments_def
        three_of_four_active_def matches_active skip_of_def sort_value_createdAt Let_def)
  have tB: "strategy_total Unreachable ?reqB = 3"
    using fetch_page_strategy_total [OF fB] by simp
  have tA: "strategy_total three_of_four_active ?reqA = 3"
    using fetch_page_strategy_total [OF fA] by simp
  obtain rB where eB: "paginate Unreachable ?reqB = Inr rB"
    using fB by (simp add: paginate_def)
  obtain rA where eA: "paginate three_of_four_active ?reqA = Inr rA"
    using fA by (simp add: paginate_def)
  have B: "\<exists>p. req_pagination rB = Some p \<and>
     totalItems (pagination p) = 3 \<and> totalPages (pagination p) = 2 \<and>
     \<not> hasNextPage (pagination p) \<and> hasPrevPage (pagination p)"
    using pagination_metadata [OF eB] pl ap ex tB by auto
  have A0: "\<exists>p. req_pagination rA = Some p \<and>
     totalItems (pagination p) = 3 \<and> totalPages (pagination p) = 2 \<and>
     \<not> hasNextPage (pagination p) \<and> hasPrevPage (pagination p)"
    using pagination_metadata [OF eA] pl ap ex tA by auto
  from paginate_Inr [OF eA] fA
  have "\<forall>p. req_pagination rA = Some p \<longrightarrow> data p = [Plain (sample_medicine ''c'' True None)]"
    by auto
  with A0 have A: "\<exists>p. req_pagination rA = Some p \<and>
     data p = [Plain (sample_medicine ''c'' True None)] \<and>
     totalItems (pagination p) = 3 \<and> totalPages (pagination p) = 2 \<and>
     \<not> hasNextPage (pagination p) \<and> hasPrevPage (pagination p)"
    by auto
  from eB B eA A show ?thesis by blast
qed

subsection \<open>Paging parameters\<close>

lemma paginate_in_memory:
  assumes "searchResults req = Some rs"
  shows "paginate coll req =
           Inr (req\<lparr>req_pagination :=
                  Some \<lparr>data = slice rs (skip_of req) (skip_of req + limit_of req),
                        pagination = page_info (page_of req) (limit_of req) (int (length rs))\<rparr>\<rparr>)"
  using assms by (simp add: paginate_def fetch_page_def Let_def)





subsection \<open>Sort defaults\<close>

text \<open>
  Claim C9 at a request with no \<^verbatim>\<open>sort\<close> and no \<^verbatim>\<open>order\<close> parameter and no
  coordinates, on a collection that holds an older document before a newer one. The
  paginate middleware computes the sort field \<^verbatim>\<open>createdAt\<close> and the direction \<open>1\<close>,
  ascending (the route's documentation gives \<^verbatim>\<open>desc\<close> as the default), and uses neither:
  the search middleware has stored the search results, so the page is a slice of them in
  the order of the collection. The route answers the older document first, which is not
  the descending order by creation time.
\<close>

theorem sort_defaults_evaluated:
  "order_of (incoming no_query None) = 1 \<and>
   sortBy_of (incoming no_query None) = ''createdAt'' \<and>
   list_route engine two_dated no_query None =
     Inr \<lparr>count_field = 2,
          medicines = [Plain ((sample_medicine ''old'' True None)\<lparr>createdAt := 1\<rparr>),
                       Plain ((sample_medicine ''new'' True None)\<lparr>createdAt := 2\<rparr>)],
          pagination_field = Some (page_info 1 10 2)\<rparr>"
proof -
  have d: "order_of (incoming no_query None) = 1"
    "sortBy_of (incoming no_query None) = ''createdAt''"
    by (simp_all add: order_of_def sortBy_of_def incoming_def no_query_def)
  have "list_route engine two_dated no_query None =
     Inr \<lparr>count_field = 2,
          medicines = [Plain ((sample_medicine ''old'' True None)\<lparr>createdAt := 1\<rparr>),
                       Plain ((sample_medicine ''new'' True None)\<lparr>createdAt := 2\<rparr>)],
          pagination_field = Some (page_info 1 10 2)\<rparr>"
    by (simp add: list_route_def search_middleware_def compose_filter_def user_coordinates_def
        incoming_def ranking_active_def find_exec_def Let_def two_dated_def matches_def
        field_def sample_medicine_def
        no_query_def paginate_def fetch_page_def skip_of_def page_of_def limit_of_def parse_simps
        slice_def getAllMedicines_def getAllMedicines_with_def)
  with d show ?thesis by (intro conjI)
qed

subsection \<open>The response\<close>

lemma search_middleware_Inr:
  assumes "search_middleware engine coll req = Inr req1"
  shows "\<exists>rs. searchResults req1 = Some rs \<and> req_query req1 = req_query req"
  using assms by (auto simp: search_middleware_def Let_def split: sum.splits)

lemma controller_paginated:
  assumes "req_pagination req = Some p"
  shows "getAllMedicines_with fb coll req =
           Inr \<lparr>count_field = int (length (data p)), medicines = data p,
                pagination_field = Some (pagination p)\<rparr>"
  using assms by (simp add: getAllMedicines_with_def)

lemma controller_count:
  assumes "getAllMedicines_with fb coll req = Inr resp"
  shows "count_field resp = int (length (medicines resp))"
  using assms by (auto simp: getAllMedicines_with_def split: option.splits sum.splits)

text \<open>
  Claim C10. Whenever the paginate middleware has succeeded, on whatever request, each of
  the two controllers answers with the page it stored: \<open>medicines\<close> is the page,
  \<open>count\<close> is the length of the page, and the pagination object is handed on as it is.
  When the page was cut from search results, as it is behind the search middleware, the
  page is a contiguous part of them, and their number, the number of all matching
  records, is \<open>totalItems\<close> of the pagination object and nothing else in the response.
\<close>

theorem count_is_page_length:
  assumes "paginate coll req = Inr req2"
  shows "\<exists>p. req_pagination req2 = Some p \<and>
           getAllMedicines coll req2 =
             Inr \<lparr>count_field = int (length (data p)), medicines = data p,
                  pagination_field = Some (pagination p)\<rparr> \<and>
           getAllMedicinesPharmacy coll req2 =
             Inr \<lparr>count_field = int (length (data p)), medicines = data p,
                  pagination_field = Some (pagination p)\<rparr> \<and>
           totalItems (pagination p) = strategy_total coll req \<and>
           (case searchResults req of
              None \<Rightarrow> True
            | Some rs \<Rightarrow> sublist (data p) rs \<and> totalItems (pagination p) = int (length rs))"
proof -
  from paginate_Inr [OF assms] obtain d t where
    f: "fetch_page coll req = Inr (d, t)" and
    r: "req2 = req\<lparr>req_pagination :=
               Some \<lparr>data = d, pagination = page_info (page_of req) (limit_of req) t\<rparr>\<rparr>"
    by blast
  let ?p = "\<lparr>data = d, pagination = page_info (page_of req) (limit_of req) t\<rparr>"
  have p: "req_pagination req2 = Some ?p" using r by simp
  have t: "totalItems (pagination ?p) = strategy_total coll req"
    using fetch_page_strategy_total [OF f] by (simp add: page_info_def Let_def)
  have m: "case searchResults req of
              None \<Rightarrow> True
            | Some rs \<Rightarrow> sublist (data ?p) rs \<and> totalItems (pagination ?p) = int (length rs)"
  proof (cases "searchResults req")
    case None
    then show ?thesis by simp
  next
    case (Some rs)
    with f have "d = slice rs (skip_of req) (skip_of req + limit_of req)" "t = int (length rs)"
      by (simp_all add: fetch_page_def Let_def)
    with Some show ?thesis by (simp add: slice_sublist page_info_def Let_def)
  qed
  from controller_paginated [OF p] t m p show ?thesis
    unfolding getAllMedicines_def getAllMedicinesPharmacy_def by blast
qed

text \<open>
  Three search results, limit 2: both controllers answer a count of 2, and the total 3 is
  in the pagination object.
\<close>

theorem count_is_page_length_witness:
  "\<exists>req2 resp pg.
     paginate Unreachable
       ((incoming (no_query\<lparr>q_limit := Some ''2''\<rparr>) None)
          \<lparr>searchResults := Some three_results\<rparr>) = Inr req2 \<and>
     getAllMedicines Unreachable req2 = Inr resp \<and>
     getAllMedicinesPharmacy Unreachable req2 = Inr resp \<and>
     count_field resp = 2 \<and>
     medicines resp =
       [Plain (sample_medicine ''a'' True None), Plain (sample_medicine ''b'' True None)] \<and>
     pagination_field resp = Some pg \<and> totalItems pg = 3"
proof -
  let ?req = "(incoming (no_query\<lparr>q_limit := Some ''2''\<rparr>) None)
          \<lparr>searchResults := Some three_results\<rparr>"
  have sr: "searchResults ?req = Some three_results" by simp
  have lm: "limit_of ?req = 2" and sk: "skip_of ?req = 0"
    by (simp_all add: skip_of_def page_of_def limit_of_def incoming_def no_query_def parse_simps)
  from paginate_in_memory [OF sr, of Unreachable] obtain req2 where
    e: "paginate Unreachable ?req = Inr req2" and
    d: "req_pagination req2 =
          Some \<lparr>data = slice three_results (skip_of ?req) (skip_of ?req + limit_of ?req),
                pagination = page_info (page_of ?req) (limit_of ?req) (int (length three_results))\<rparr>"
    by simp
  have s: "slice three_results 0 2 =
        [Plain (sample_medicine ''a'' True None), Plain (sample_medicine ''b'' True None)]"
    by (simp add: slice_def three_results_def)
  from count_is_page_length [OF e] d sr lm sk s show ?thesis
    using e by (auto simp: three_results_def page_info_def Let_def)
qed

subsection \<open>The distance function in exact arithmetic\<close>

text \<open>
  \<open>calculateDistance\<close> is embedded over the real numbers. The lemmas of this section are
  about the formula in exact arithmetic. The first one, the distance \<open>0\<close> from a point to
  itself, also holds of the program, where every step on these values is exact. The others
  do not carry over to every input: in the program's doubles the sum \<open>a\<close> can exceed one
  by a rounding error for points that are nearly opposite on the sphere, and then
  \<^verbatim>\<open>Math.sqrt(1 - a)\<close> and the result are \<^verbatim>\<open>NaN\<close>.
\<close>

lemma calculateDistance_self: "calculateDistance x y x y = 0"
  by (simp add: calculateDistance_def atan2_def)

lemma calculateDistance_commute:
  "calculateDistance lat1 lon1 lat2 lon2 = calculateDistance lat2 lon2 lat1 lon1"
proof -
  have neg: "sin ((b - a) * pi / 180 / 2) = - sin ((a - b) * pi / 180 / 2)" for a b :: real
  proof -
    have "b - a = - (a - b)" by simp
    then have "(b - a) * pi / 180 / 2 = - ((a - b) * pi / 180 / 2)"
      by (simp only: mult_minus_left minus_divide_left)
    then show ?thesis by (simp only: sin_minus)
  qed
  have sq: "sin ((b - a) * pi / 180 / 2) * sin ((b - a) * pi / 180 / 2) =
            sin ((a - b) * pi / 180 / 2) * sin ((a - b) * pi / 180 / 2)" for a b :: real
    by (simp only: neg [of b a])
  have "sin ((lat2 - lat1) * pi / 180 / 2) * sin ((lat2 - lat1) * pi / 180 / 2) +
        cos (lat1 * pi / 180) * cos (lat2 * pi / 180) *
        sin ((lon2 - lon1) * pi / 180 / 2) * sin ((lon2 - lon1) * pi / 180 / 2) =
        sin ((lat1 - lat2) * pi / 180 / 2) * sin ((lat1 - lat2) * pi / 180 / 2) +
        cos (lat2 * pi / 180) * cos (lat1 * pi / 180) *
        sin ((lon1 - lon2) * pi / 180 / 2) * sin ((lon1 - lon2) * pi / 180 / 2)"
    using sq [of lat2 lat1] sq [of lon2 lon1] by (simp add: mult.assoc mult.commute)
  then show ?thesis by (simp only: calculateDistance_def Let_def)
qed

lemma calculateDistance_half_equator: "calculateDistance 0 0 0 180 = 6371 * pi"
  by (simp add: calculateDistance_def atan2_def)

lemma calculateDistance_quarter_equator: "calculateDistance 0 0 0 90 = 6371 * pi / 2"
proof -
  have h: "(90::real) * pi / 180 / 2 = pi / 4" by simp
  have s: "sin (pi / 4) * sin (pi / 4) = (1::real) / 2"
    by (simp add: sin_45)
  have a: "sin ((0 - 0) * pi / 180 / 2) * sin ((0 - 0) * pi / 180 / 2) +
           cos (0 * pi / 180) * cos (0 * pi / 180) *
           sin ((90 - 0) * pi / 180 / 2) * sin ((90 - 0) * pi / 180 / 2) = (1::real) / 2"
    using s by (simp add: h)
  have r: "0 < sqrt ((1::real) / 2)" by simp
  have t: "atan2 (sqrt (1 / 2)) (sqrt (1 - 1 / 2)) = pi / 4"
    using r by (simp add: atan2_def arctan_one)
  show ?thesis
    unfolding calculateDistance_def Let_def a t by simp
qed

subsection \<open>Ordering by distance\<close>

lemma by_distance_le: "by_distance a b \<le> 0 \<longleftrightarrow> distance_key a \<le> distance_key b"
  by (cases "distance a"; cases "distance b") (simp_all add: by_distance_def distance_key_def)

lemma insert_sorted_insort: "insert_sorted by_distance x ys = insort_key distance_key x ys"
  by (induction ys) (simp_all add: by_distance_le)

lemma array_sort_sort_key: "array_sort by_distance xs = sort_key distance_key xs"
proof -
  have "insert_sorted by_distance = insort_key distance_key"
    by (intro ext) (rule insert_sorted_insort)
  then show ?thesis by (simp add: array_sort_def sort_key_def)
qed

lemma distance_key_inj: "distance_key a = distance_key b \<longleftrightarrow> distance a = distance b"
  by (cases "distance a"; cases "distance b") (simp_all add: distance_key_def)

lemma array_sort_stable:
  "filter (\<lambda>r. distance r = k) (array_sort by_distance xs) = filter (\<lambda>r. distance r = k) xs"
proof -
  let ?k = "case k of None \<Rightarrow> (1, 0) | Some d \<Rightarrow> (0::nat, d::real)"
  have "(distance r = k) = (distance_key r = ?k)" for r
    by (cases "distance r"; cases k) (simp_all add: distance_key_def)
  then show ?thesis
    by (simp add: array_sort_sort_key sort_key_stable)
qed

lemma insort_null_last:
  assumes "distance x = None" and "\<forall>s \<in> set S. distance s \<noteq> None"
    and "\<forall>n \<in> set N. distance n = None"
  shows "insort_key distance_key x (S @ N) = S @ x # N"
  using assms
proof (induction S)
  case Nil
  then show ?case by (cases N) (simp_all add: distance_key_def)
next
  case (Cons s S)
  then have "\<not> distance_key x \<le> distance_key s" by (auto simp: distance_key_def)
  with Cons show ?case by simp
qed

lemma insort_numeric_first:
  assumes "distance x \<noteq> None" and "\<forall>n \<in> set N. distance n = None"
  shows "insort_key distance_key x (S @ N) = insort_key distance_key x S @ N"
  using assms
proof (induction S)
  case Nil
  then show ?case by (cases N) (auto simp: distance_key_def)
next
  case (Cons s S)
  then show ?case by simp
qed

lemma sort_key_nulls_last:
  "sort_key distance_key xs =
     sort_key distance_key (filter (\<lambda>r. distance r \<noteq> None) xs) @
     filter (\<lambda>r. distance r = None) xs"
proof (induction xs)
  case Nil
  then show ?case by simp
next
  case (Cons x xs)
  let ?S = "sort_key distance_key (filter (\<lambda>r. distance r \<noteq> None) xs)"
  let ?N = "filter (\<lambda>r. distance r = None) xs"
  have S: "\<forall>s \<in> set ?S. distance s \<noteq> None" by simp
  have N: "\<forall>n \<in> set ?N. distance n = None" by simp
  show ?case
  proof (cases "distance x = None")
    case True
    with Cons insort_null_last [OF True S N] show ?thesis by simp
  next
    case False
    with Cons insort_numeric_first [OF False N, of ?S] show ?thesis by simp
  qed
qed

lemma rank_sort_key:
  "rank userLat userLon docs = sort_key distance_key (map (annotate userLat userLon) docs)"
  by (simp add: rank_def array_sort_sort_key)

lemma item_annotate: "map item (map (annotate userLat userLon) docs) = docs"
  by (induction docs) (simp_all add: annotate_def Let_def)

lemma toFixed2_plain:
  assumes "0 \<le> x" and "x < 10 ^ 21"
  shows "toFixed2 x = of_int \<lfloor>x * 100 + 1 / 2\<rfloor> / 100"
  using assms by (simp add: toFixed2_def)

lemma toFixed2_quarter_half:
  "toFixed2 (6371 * pi / 2) < toFixed2 (6371 * pi)"
proof -
  let ?x = "6371 * pi / 2 :: real"
  have p3: "2 \<le> pi" by (rule pi_ge_two)
  have p4: "pi < 4" by (rule pi_less_4)
  have x: "0 \<le> ?x" "?x < 10 ^ 21" "0 \<le> 6371 * pi" "6371 * pi < 10 ^ 21"
    using p3 p4 by simp_all
  have "?x * 100 + 1 / 2 + 1 \<le> 6371 * pi * 100 + 1 / 2" using p3 by simp
  then have "\<lfloor>?x * 100 + 1 / 2 + 1\<rfloor> \<le> \<lfloor>6371 * pi * 100 + 1 / 2\<rfloor>" by (rule floor_mono)
  moreover have "\<lfloor>?x * 100 + 1 / 2 + 1\<rfloor> = \<lfloor>?x * 100 + 1 / 2\<rfloor> + 1" by linarith
  ultimately have "\<lfloor>?x * 100 + 1 / 2\<rfloor> < \<lfloor>6371 * pi * 100 + 1 / 2\<rfloor>" by linarith
  then have "real_of_int \<lfloor>?x * 100 + 1 / 2\<rfloor> / 100 < real_of_int \<lfloor>6371 * pi * 100 + 1 / 2\<rfloor> / 100"
    by simp
  then show ?thesis
    by (simp only: toFixed2_plain [OF x(1,2)] toFixed2_plain [OF x(3,4)])
qed

lemma rank_four_placed:
  "map item (rank (Fin 0) (Fin 0) four_placed) =
     [sample_medicine ''C'' True (Some (pharmacy_at 0 90)),
      sample_medicine ''B'' True (Some (pharmacy_at 0 180)),
      sample_medicine ''A'' True None,
      sample_medicine ''D'' True (Some \<lparr>pharmacyName = ''pharmacy'', location = None\<rparr>)]"
proof -
  let ?A = "sample_medicine ''A'' True None"
  let ?B = "sample_medicine ''B'' True (Some (pharmacy_at 0 180))"
  let ?C = "sample_medicine ''C'' True (Some (pharmacy_at 0 90))"
  let ?D = "sample_medicine ''D'' True (Some \<lparr>pharmacyName = ''pharmacy'', location = None\<rparr>)"
  have nz: "6371 * pi \<noteq> 0" "6371 * pi / 2 \<noteq> 0" by simp_all
  have a: "annotate (Fin 0) (Fin 0) ?A = \<lparr>item = ?A, distance = None\<rparr>"
    by (simp add: annotate_def sample_medicine_def)
  have b: "annotate (Fin 0) (Fin 0) ?B = \<lparr>item = ?B, distance = Some (toFixed2 (6371 * pi))\<rparr>"
    using nz
    by (simp add: annotate_def sample_medicine_def pharmacy_at_def calculateDistance_num_def
        calculateDistance_half_equator)
  have c: "annotate (Fin 0) (Fin 0) ?C = \<lparr>item = ?C, distance = Some (toFixed2 (6371 * pi / 2))\<rparr>"
    using nz
    by (simp add: annotate_def sample_medicine_def pharmacy_at_def calculateDistance_num_def
        calculateDistance_quarter_equator)
  have d: "annotate (Fin 0) (Fin 0) ?D = \<lparr>item = ?D, distance = None\<rparr>"
    by (simp add: annotate_def sample_medicine_def)
  have "rank (Fin 0) (Fin 0) four_placed =
          [\<lparr>item = ?C, distance = Some (toFixed2 (6371 * pi / 2))\<rparr>,
           \<lparr>item = ?B, distance = Some (toFixed2 (6371 * pi))\<rparr>,
           \<lparr>item = ?A, distance = None\<rparr>, \<lparr>item = ?D, distance = None\<rparr>]"
    using toFixed2_quarter_half
    by (simp add: rank_def four_placed_def a b c d array_sort_def by_distance_def)
  then show ?thesis by simp
qed

text \<open>
  Claim C4. The Geo Ranker attaches a distance to every record and sorts: its result is
  the stable sort of the annotated records by the key that puts every number before
  \<^verbatim>\<open>null\<close> and orders numbers ascending. So the result holds the input records, each
  once, and is ascending in that key; the records without a distance follow all records
  with one, in their input order; and for every distance value (a number or \<^verbatim>\<open>null\<close>)
  the records that carry it keep their input order. The comparator on the input
  \<open>[A (no distance), B (5), C (2), D (no distance)]\<close> gives \<open>[C, B, A, D]\<close>, and so does
  the ranker on four medicines placed accordingly.
\<close>

theorem ranker_order_stable:
  "rank userLat userLon docs =
     sort_key distance_key (map (annotate userLat userLon) docs) \<and>
   mset (map item (rank userLat userLon docs)) = mset docs \<and>
   sorted (map distance_key (rank userLat userLon docs)) \<and>
   rank userLat userLon docs =
     array_sort by_distance
       (filter (\<lambda>r. distance r \<noteq> None) (map (annotate userLat userLon) docs)) @
     filter (\<lambda>r. distance r = None) (map (annotate userLat userLon) docs) \<and>
   (\<forall>k. filter (\<lambda>r. distance r = k) (rank userLat userLon docs) =
        filter (\<lambda>r. distance r = k) (map (annotate userLat userLon) docs)) \<and>
   array_sort by_distance
     [at_distance ''A'' None, at_distance ''B'' (Some 5), at_distance ''C'' (Some 2),
      at_distance ''D'' None] =
     [at_distance ''C'' (Some 2), at_distance ''B'' (Some 5), at_distance ''A'' None,
      at_distance ''D'' None] \<and>
   map item (rank (Fin 0) (Fin 0) four_placed) =
     [sample_medicine ''C'' True (Some (pharmacy_at 0 90)),
      sample_medicine ''B'' True (Some (pharmacy_at 0 180)),
      sample_medicine ''A'' True None,
      sample_medicine ''D'' True (Some \<lparr>pharmacyName = ''pharmacy'', location = None\<rparr>)]"
proof -
  let ?xs = "map (annotate userLat userLon) docs"
  have r: "rank userLat userLon docs = array_sort by_distance ?xs" by (simp add: rank_def)
  have key: "rank userLat userLon docs = sort_key distance_key ?xs" by (rule rank_sort_key)
  have "mset (rank userLat userLon docs) = mset ?xs" by (simp add: key)
  then have "mset (map item (rank userLat userLon docs)) = mset (map item ?xs)"
    by (simp only: mset_map)
  then have perm: "mset (map item (rank userLat userLon docs)) = mset docs"
    by (simp only: item_annotate)
  have asc: "sorted (map distance_key (rank userLat userLon docs))" by (simp add: key)
  have split: "rank userLat userLon docs =
     array_sort by_distance (filter (\<lambda>r. distance r \<noteq> None) ?xs) @
     filter (\<lambda>r. distance r = None) ?xs"
    using sort_key_nulls_last [of ?xs] by (simp only: r array_sort_sort_key)
  have stable: "\<forall>k. filter (\<lambda>r. distance r = k) (rank userLat userLon docs) =
        filter (\<lambda>r. distance r = k) ?xs"
    by (simp only: r array_sort_stable) simp
  have ex: "array_sort by_distance
     [at_distance ''A'' None, at_distance ''B'' (Some 5), at_distance ''C'' (Some 2),
      at_distance ''D'' None] =
     [at_distance ''C'' (Some 2), at_distance ''B'' (Some 5), at_distance ''A'' None,
      at_distance ''D'' None]"
    by (simp add: array_sort_def by_distance_def at_distance_def)
  from key perm asc split stable ex rank_four_placed show ?thesis
    by (intro conjI)
qed

subsection \<open>The distance attached to a record\<close>

lemma annotate_no_location:
  assumes "pharmacyId m = None \<or> (\<exists>p. pharmacyId m = Some p \<and> location p = None)"
  shows "distance (annotate userLat userLon m) = None"
  using assms by (auto simp: annotate_def)

lemma annotate_located:
  assumes "pharmacyId m = Some p" and "location p = Some l"
  shows "distance (annotate (Fin la) (Fin lo) m) =
           (if calculateDistance la lo (latitude l) (longitude l) = 0 then None
            else Some (toFixed2 (calculateDistance la lo (latitude l) (longitude l))))"
  using assms by (simp add: annotate_def calculateDistance_num_def)

lemma parseFloat_30_31: "parseFloat ''30'' = Fin 30" "parseFloat ''31'' = Fin 31"
  by (simp_all add: parseFloat_def strip_sign_def isWhiteSpace_def isDigit_def digit_of_def
      digits_value_def exponent_part_def scale10_def to_number_def)

text \<open>
  Claim C5 at a record whose pharmacy stands where the requester is, \<open>(30, 31)\<close>: the
  owner has a location and the requester's coordinates are finite, and the distance
  attached is \<^verbatim>\<open>null\<close>, because the computed distance \<open>0\<close> is falsy in
  \<^verbatim>\<open>distance ? ... : null\<close>. The listing route returns the record so.
\<close>

theorem zero_distance_is_null:
  "distance (annotate (Fin 30) (Fin 31)
      (sample_medicine ''a'' True (Some (pharmacy_at 30 31)))) = None \<and>
   list_route engine (Docs [sample_medicine ''a'' True (Some (pharmacy_at 30 31))])
      (no_query\<lparr>q_latitude := Some ''30'', q_longitude := Some ''31''\<rparr>) None =
     Inr \<lparr>count_field = 1,
          medicines = [WithDistance
             \<lparr>item = sample_medicine ''a'' True (Some (pharmacy_at 30 31)), distance = None\<rparr>],
          pagination_field = Some (page_info 1 10 1)\<rparr>"
proof -
  let ?m = "sample_medicine ''a'' True (Some (pharmacy_at 30 31))"
  have p: "pharmacyId ?m = Some (pharmacy_at 30 31)"
    and l: "location (pharmacy_at 30 31) = Some \<lparr>latitude = 30, longitude = 31\<rparr>"
    by (simp_all add: sample_medicine_def pharmacy_at_def)
  have d: "distance (annotate (Fin 30) (Fin 31) ?m) = None"
    using annotate_located [OF p l, of 30 31] by (simp add: calculateDistance_self)
  have a: "annotate (Fin 30) (Fin 31) ?m = \<lparr>item = ?m, distance = None\<rparr>"
    using d by (simp add: annotate_def Let_def)
  have "list_route engine (Docs [?m]) (no_query\<lparr>q_latitude := Some ''30'', q_longitude := Some ''31''\<rparr>) None =
     Inr \<lparr>count_field = 1, medicines = [WithDistance \<lparr>item = ?m, distance = None\<rparr>],
          pagination_field = Some (page_info 1 10 1)\<rparr>"
    by (simp add: list_route_def search_middleware_def compose_filter_def user_coordinates_def
        incoming_def ranking_active_def isNaN_def find_exec_def Let_def matches_active
        no_query_def paginate_def fetch_page_def skip_of_def page_of_def limit_of_def parse_simps
        slice_def getAllMedicines_def getAllMedicines_with_def parseFloat_30_31 rank_def a
        array_sort_def)
  with d show ?thesis by blast
qed

subsection \<open>The two states of a listing request\<close>

lemma search_results_unranked:
  assumes "search_middleware engine coll req = Inr req1"
    and "\<not> ranking_active (user_coordinates req)"
  shows "\<exists>flt docs.
           compose_filter engine (case baseQuery req of None \<Rightarrow> [] | Some f \<Rightarrow> f)
             (q_search (req_query req)) = Inr flt \<and>
           find_exec coll flt = Inr docs \<and>
           searchResults req1 = Some (map Plain docs)"
  using assms by (auto simp: search_middleware_def Let_def split: sum.splits)

lemma search_results_ranked:
  assumes "search_middleware engine coll req = Inr req1"
    and "user_coordinates req = (Some userLat, Some userLon)"
    and "\<not> isNaN userLat" and "\<not> isNaN userLon"
  shows "\<exists>flt docs.
           compose_filter engine (case baseQuery req of None \<Rightarrow> [] | Some f \<Rightarrow> f)
             (q_search (req_query req)) = Inr flt \<and>
           find_exec coll flt = Inr docs \<and>
           searchResults req1 = Some (map WithDistance (rank userLat userLon docs))"
  using assms by (auto simp: search_middleware_def ranking_active_def Let_def split: sum.splits)

lemma user_coordinates_incoming:
  "user_coordinates ((incoming q u)\<lparr>baseQuery := b\<rparr>) = user_coordinates (incoming q u)"
  by (simp add: user_coordinates_def incoming_def)

lemma list_route_Inr:
  assumes "list_route engine coll q u = Inr resp"
  shows "\<exists>req1 rs. 
           search_middleware engine coll
             ((incoming q u)\<lparr>baseQuery := Some [(''isActive'', Lit (VBool True))]\<rparr>) = Inr req1 \<and>
           searchResults req1 = Some rs \<and>
           medicines resp =
             slice rs (skip_of (incoming q u)) (skip_of (incoming q u) + limit_of (incoming q u))"
proof -
  let ?req = "(incoming q u)\<lparr>baseQuery := Some [(''isActive'', Lit (VBool True))]\<rparr>"
  from assms obtain req1 req2 where
    s: "search_middleware engine coll ?req = Inr req1" and p: "paginate coll req1 = Inr req2" and
    c: "getAllMedicines_with [(''isActive'', Lit (VBool True))] coll req2 = Inr resp"
    by (auto simp: list_route_def Let_def getAllMedicines_def split: sum.splits)
  from search_middleware_Inr [OF s] obtain rs where
    rs: "searchResults req1 = Some rs" and q: "req_query req1 = req_query ?req" by blast
  from q have same: "skip_of req1 = skip_of (incoming q u)" "limit_of req1 = limit_of (incoming q u)"
    by (simp_all add: skip_of_def page_of_def limit_of_def incoming_def)
  from paginate_in_memory [OF rs, of coll] p
  have "req_pagination req2 =
          Some \<lparr>data = slice rs (skip_of req1) (skip_of req1 + limit_of req1),
                pagination = page_info (page_of req1) (limit_of req1) (int (length rs))\<rparr>"
    by auto
  from controller_paginated [OF this, of "[(''isActive'', Lit (VBool True))]" coll] c
  have "medicines resp = slice rs (skip_of req1) (skip_of req1 + limit_of req1)" by auto
  with s rs same show ?thesis by auto
qed

text \<open>
  The two states on the listing route, for every request. Without usable coordinates the
  page is a slice of all matching documents in the order the collection returned them;
  the sort field and direction of the request do not occur. With usable coordinates it is
  a slice of the ranked list.
\<close>

lemma unranked_route:
  assumes "list_route engine coll q u = Inr resp"
    and "\<not> ranking_active (user_coordinates (incoming q u))"
  shows "\<exists>flt docs.
           compose_filter engine [(''isActive'', Lit (VBool True))] (q_search q) = Inr flt \<and>
           find_exec coll flt = Inr docs \<and>
           medicines resp =
             slice (map Plain docs) (skip_of (incoming q u))
               (skip_of (incoming q u) + limit_of (incoming q u))"
proof -
  let ?req = "(incoming q u)\<lparr>baseQuery := Some [(''isActive'', Lit (VBool True))]\<rparr>"
  from list_route_Inr [OF assms(1)] obtain req1 rs where
    s: "search_middleware engine coll ?req = Inr req1" and rs: "searchResults req1 = Some rs" and
    m: "medicines resp =
          slice rs (skip_of (incoming q u)) (skip_of (incoming q u) + limit_of (incoming q u))"
    by blast
  from assms(2) have "\<not> ranking_active (user_coordinates ?req)"
    by (simp add: user_coordinates_incoming)
  from search_results_unranked [OF s this] rs m show ?thesis
    by (auto simp: incoming_def)
qed

lemma ranked_route:
  assumes "list_route engine coll q u = Inr resp"
    and "user_coordinates (incoming q u) = (Some userLat, Some userLon)"
    and "\<not> isNaN userLat" and "\<not> isNaN userLon"
  shows "\<exists>flt docs.
           compose_filter engine [(''isActive'', Lit (VBool True))] (q_search q) = Inr flt \<and>
           find_exec coll flt = Inr docs \<and>
           medicines resp =
             slice (map WithDistance (rank userLat userLon docs)) (skip_of (incoming q u))
               (skip_of (incoming q u) + limit_of (incoming q u))"
proof -
  let ?req = "(incoming q u)\<lparr>baseQuery := Some [(''isActive'', Lit (VBool True))]\<rparr>"
  from list_route_Inr [OF assms(1)] obtain req1 rs where
    s: "search_middleware engine coll ?req = Inr req1" and rs: "searchResults req1 = Some rs" and
    m: "medicines resp =
          slice rs (skip_of (incoming q u)) (skip_of (incoming q u) + limit_of (incoming q u))"
    by blast
  from assms(2) have "user_coordinates ?req = (Some userLat, Some userLon)"
    by (simp add: user_coordinates_incoming)
  from search_results_ranked [OF s this assms(3,4)] rs m show ?thesis
    by (auto simp: incoming_def)
qed

text \<open>
  Claim C1 at a request without coordinates that asks for \<^verbatim>\<open>sort=name&order=desc\<close>, on
  a collection holding the medicines \<open>a\<close> and \<open>b\<close> in this order. The route answers
  \<open>[a, b]\<close>: the search middleware has fetched every match and stored it as
  \<open>searchResults\<close>, so the paginate middleware slices that list and never sorts. The
  query with skip, limit and sort, which the paginate middleware runs when there are no
  search results, answers \<open>[b, a]\<close>.
\<close>

theorem unranked_request_is_sliced_in_memory:
  "list_route engine two_named (no_query\<lparr>q_sort := Some ''name'', q_order := Some ''desc''\<rparr>) None =
     Inr \<lparr>count_field = 2,
          medicines = [Plain (sample_medicine ''a'' True None), Plain (sample_medicine ''b'' True None)],
          pagination_field = Some (page_info 1 10 2)\<rparr> \<and>
   fetch_page two_named
     ((incoming (no_query\<lparr>q_sort := Some ''name'', q_order := Some ''desc''\<rparr>) None)
        \<lparr>baseQuery := Some [(''isActive'', Lit (VBool True))]\<rparr>) =
     Inr ([Plain (sample_medicine ''b'' True None), Plain (sample_medicine ''a'' True None)], 2)"
proof -
  let ?q = "no_query\<lparr>q_sort := Some ''name'', q_order := Some ''desc''\<rparr>"
  have route: "list_route engine two_named ?q None =
     Inr \<lparr>count_field = 2,
          medicines = [Plain (sample_medicine ''a'' True None), Plain (sample_medicine ''b'' True None)],
          pagination_field = Some (page_info 1 10 2)\<rparr>"
    by (simp add: list_route_def search_middleware_def compose_filter_def user_coordinates_def
        incoming_def ranking_active_def find_exec_def Let_def two_named_def matches_active
        no_query_def paginate_def fetch_page_def skip_of_def page_of_def limit_of_def parse_simps
        slice_def getAllMedicines_def getAllMedicines_with_def)
  have query: "fetch_page two_named
     ((incoming ?q None)\<lparr>baseQuery := Some [(''isActive'', Lit (VBool True))]\<rparr>) =
     Inr ([Plain (sample_medicine ''b'' True None), Plain (sample_medicine ''a'' True None)], 2)"
    by (simp add: fetch_page_def incoming_def no_query_def sorted_exec_def countDocuments_def
        two_named_def matches_active skip_of_def page_of_def limit_of_def parse_simps
        sortBy_of_def order_of_def sort_value_name Let_def)
  from route query show ?thesis by (rule conjI)
qed

subsection \<open>The search filter\<close>

lemma trim_empty_iff: "trim s = [] \<longleftrightarrow> (\<forall>c \<in> set s. isWhiteSpace c)"
proof
  assume "trim s = []"
  then have all: "\<forall>c \<in> set (dropWhile isWhiteSpace s). isWhiteSpace c"
    by (simp add: trim_def)
  have "dropWhile isWhiteSpace s = []"
  proof (rule ccontr)
    assume ne: "dropWhile isWhiteSpace s \<noteq> []"
    then have "\<not> isWhiteSpace (hd (dropWhile isWhiteSpace s))" by (rule hd_dropWhile)
    moreover from ne have "hd (dropWhile isWhiteSpace s) \<in> set (dropWhile isWhiteSpace s)"
      by (rule hd_in_set)
    ultimately show False using all by blast
  qed
  then show "\<forall>c \<in> set s. isWhiteSpace c" by simp
next
  assume "\<forall>c \<in> set s. isWhiteSpace c"
  then have dw: "dropWhile isWhiteSpace s = []" by simp
  show "trim s = []" unfolding trim_def dw by simp
qed

lemma parse_literal_chars:
  assumes "\<forall>c \<in> set s. \<not> pattern_special c"
  shows "parse_pattern ((alts, cur) # fs) s =
         parse_pattern ((alts, rev (map (\<lambda>c. (Chr c, Bare)) s) @ cur) # fs) []"
  using assms
proof (induction s arbitrary: cur)
  case Nil
  then show ?case by simp
next
  case (Cons c cs)
  then have c: "\<not> pattern_special c" and cs: "\<forall>c \<in> set cs. \<not> pattern_special c" by simp_all
  from c have "parse_pattern ((alts, cur) # fs) (c # cs) =
               parse_pattern ((alts, (Chr c, Bare) # cur) # fs) cs"
    by (simp add: pattern_special_def push_term_def)
  also have "\<dots> = parse_pattern
      ((alts, rev (map (\<lambda>c. (Chr c, Bare)) cs) @ (Chr c, Bare) # cur) # fs) []"
    using cs by (rule Cons.IH)
  finally show ?case by simp
qed

lemma seq_of_literal: "seq_of (rev (map (\<lambda>c. (Chr c, Bare)) s)) = literal s"
proof -
  have "foldl (\<lambda>acc t. Seq (fst t) acc) Empty (rev (map (\<lambda>c. (Chr c, Bare)) s)) =
        foldr (\<lambda>t acc. Seq (fst t) acc) (map (\<lambda>c. (Chr c, Bare)) s) Empty"
    by (simp add: foldl_conv_foldr)
  also have "\<dots> = literal s" by (induction s) simp_all
  finally show ?thesis by (simp add: seq_of_def)
qed

lemma RegExp_i_fragment:
  assumes "parse_pattern [([], [])] source = Inr r"
  shows "RegExp_i engine source = Inr (Modelled r)"
  using assms by (simp add: RegExp_i_def)

lemma RegExp_i_malformed:
  assumes "parse_pattern [([], [])] source = Inl Malformed"
  shows "RegExp_i engine source = Inl SyntaxError"
  using assms by (simp add: RegExp_i_def)

lemma RegExp_i_literal:
  assumes "\<forall>c \<in> set s. \<not> pattern_special c"
  shows "RegExp_i engine s = Inr (Modelled (literal s))"
proof -
  have "parse_pattern [([], [])] s =
        parse_pattern [([], rev (map (\<lambda>c. (Chr c, Bare)) s) @ [])] []"
    using assms by (rule parse_literal_chars)
  then have "parse_pattern [([], [])] s = Inr (literal s)"
    by (simp add: close_frame_def seq_of_literal)
  then show ?thesis by (rule RegExp_i_fragment)
qed

lemma after_literal:
  "after (literal t) x =
     (if prefix (map canonicalize t) (map canonicalize x) then [drop (length t) x] else [])"
proof (induction t arbitrary: x)
  case Nil
  then show ?case by simp
next
  case (Cons c cs)
  show ?case
  proof (cases x)
    case Nil
    then show ?thesis by simp
  next
    case (Cons y ys)
    with Cons.IH [of ys] show ?thesis by simp
  qed
qed

lemma modelled_test_literal: "modelled_test (literal t) x \<longleftrightarrow> contains_ci t x"
proof -
  have "modelled_test (literal t) x \<longleftrightarrow>
        (\<exists>y. suffix y x \<and> prefix (map canonicalize t) (map canonicalize y))"
    by (auto simp: modelled_test_def list_ex_iff after_literal)
  also have "\<dots> \<longleftrightarrow> (\<exists>ys. suffix ys (map canonicalize x) \<and> prefix (map canonicalize t) ys)"
  proof
    assume "\<exists>y. suffix y x \<and> prefix (map canonicalize t) (map canonicalize y)"
    then obtain y where "suffix y x" and p: "prefix (map canonicalize t) (map canonicalize y)"
      by blast
    then have "suffix (map canonicalize y) (map canonicalize x)" by (simp add: map_mono_suffix)
    with p show "\<exists>ys. suffix ys (map canonicalize x) \<and> prefix (map canonicalize t) ys" by blast
  next
    assume "\<exists>ys. suffix ys (map canonicalize x) \<and> prefix (map canonicalize t) ys"
    then obtain ys where s: "suffix ys (map canonicalize x)"
      and p: "prefix (map canonicalize t) ys" by blast
    from s obtain zs where "map canonicalize x = zs @ ys" by (auto simp: suffix_def)
    then obtain us vs where "x = us @ vs" and "ys = map canonicalize vs"
      by (auto simp: map_eq_append_conv)
    then have "suffix vs x" by (simp add: suffix_def)
    with p \<open>ys = map canonicalize vs\<close>
    show "\<exists>y. suffix y x \<and> prefix (map canonicalize t) (map canonicalize y)" by blast
  qed
  also have "\<dots> \<longleftrightarrow> contains_ci t x"
    by (simp add: contains_ci_def sublist_altdef')
  finally show ?thesis .
qed

lemma holds_search_clauses:
  "holds d ''$or'' (Clauses [[(''name'', Pattern re)], [(''description'', Pattern re)]]) \<longleftrightarrow>
     regex_test re (name d) \<or> regex_test re (description d)"
  by (simp add: field_def)

lemma matches_update_new:
  assumes "k \<notin> fst ` set flt"
  shows "matches d (AList.update k v flt) \<longleftrightarrow> matches d flt \<and> holds d k v"
  using assms by (induction flt) (auto simp: matches_def)

lemma compose_filter_compiled:
  assumes "trim s \<noteq> []" and "RegExp_i engine (trim s) = Inr re"
  shows "compose_filter engine flt (Some s) =
           Inr (AList.update ''$or''
                  (Clauses [[(''name'', Pattern re)], [(''description'', Pattern re)]]) flt)"
proof -
  from assms(1) have "s \<noteq> []" by (auto simp: trim_def)
  with assms show ?thesis by (simp add: compose_filter_def)
qed

lemma compose_filter_throws:
  assumes "trim s \<noteq> []" and "RegExp_i engine (trim s) = Inl e"
  shows "compose_filter engine flt (Some s) = Inl e"
proof -
  from assms(1) have "s \<noteq> []" by (auto simp: trim_def)
  with assms show ?thesis by (simp add: compose_filter_def)
qed

lemma compose_filter_blank:
  assumes "search = None \<or> (\<exists>s. search = Some s \<and> (\<forall>c \<in> set s. isWhiteSpace c))"
  shows "compose_filter engine flt search = Inr flt"
  using assms by (auto simp: compose_filter_def trim_empty_iff)

text \<open>The sample patterns are of the fragment: no engine is asked about them.\<close>

lemma RegExp_i_test: "RegExp_i engine ''A+B (test)'' = Inr (Modelled test_pattern)"
  by (rule RegExp_i_fragment)
    (simp add: test_pattern_def push_term_def close_frame_def seq_of_def quantify_def)

lemma RegExp_i_unbalanced: "RegExp_i engine ''A+B (test'' = Inl SyntaxError"
  by (rule RegExp_i_malformed)
    (simp add: push_term_def close_frame_def seq_of_def quantify_def)

lemma RegExp_i_dot: "RegExp_i engine ''a.c'' = Inr (Modelled dot_pattern)"
  by (rule RegExp_i_fragment)
    (simp add: dot_pattern_def push_term_def close_frame_def seq_of_def)

lemma RegExp_i_open: "RegExp_i engine ''('' = Inl SyntaxError"
  by (rule RegExp_i_malformed) simp

lemma trim_examples:
  "trim ''A+B (test)'' = ''A+B (test)''" "trim ''A+B (test'' = ''A+B (test''"
  "trim ''a.c'' = ''a.c''" "trim ''('' = ''(''" "trim '' para '' = ''para''"
  by (simp_all add: trim_def isWhiteSpace_def)

text \<open>
  Claim C3 as stated fails at its own example. The term \<^verbatim>\<open>A+B (test)\<close> is compiled as
  a pattern: the filter matches a record named \<^verbatim>\<open>AAB test\<close>, in which the term does not
  occur, and does not match a record named \<^verbatim>\<open>A+B (test)\<close>. With the closing bracket
  left out the constructor throws, and the handler ends with the error.
\<close>

theorem unescaped_term_counterexample:
  "compose_filter strict_engine [] (Some ''A+B (test)'') =
     Inr [(''$or'', Clauses [[(''name'', Pattern (Modelled test_pattern))],
                            [(''description'', Pattern (Modelled test_pattern))]])] \<and>
   matches (sample_medicine ''AAB test'' True None)
     [(''$or'', Clauses [[(''name'', Pattern (Modelled test_pattern))],
                        [(''description'', Pattern (Modelled test_pattern))]])] \<and>
   \<not> contains_ci ''A+B (test)'' ''AAB test'' \<and>
   \<not> contains_ci ''A+B (test)'' ''tablets'' \<and>
   \<not> matches (sample_medicine ''A+B (test)'' True None)
     [(''$or'', Clauses [[(''name'', Pattern (Modelled test_pattern))],
                        [(''description'', Pattern (Modelled test_pattern))]])] \<and>
   compose_filter strict_engine [] (Some ''A+B (test'') = Inl SyntaxError"
proof -
  have c: "compose_filter strict_engine [] (Some ''A+B (test)'') =
     Inr [(''$or'', Clauses [[(''name'', Pattern (Modelled test_pattern))],
                            [(''description'', Pattern (Modelled test_pattern))]])]"
    using compose_filter_compiled [of "''A+B (test)''" strict_engine "Modelled test_pattern" "[]"]
    by (simp add: trim_examples RegExp_i_test)
  have m1: "modelled_test test_pattern ''AAB test''" by code_simp
  have m2: "\<not> modelled_test test_pattern ''A+B (test)''" by code_simp
  have m3: "\<not> modelled_test test_pattern ''tablets''" by code_simp
  have yes: "matches (sample_medicine ''AAB test'' True None)
     [(''$or'', Clauses [[(''name'', Pattern (Modelled test_pattern))],
                        [(''description'', Pattern (Modelled test_pattern))]])]"
    using m1 by (simp add: matches_def field_def sample_medicine_def)
  have no: "\<not> matches (sample_medicine ''A+B (test)'' True None)
     [(''$or'', Clauses [[(''name'', Pattern (Modelled test_pattern))],
                        [(''description'', Pattern (Modelled test_pattern))]])]"
    using m2 m3 by (simp add: matches_def field_def sample_medicine_def)
  have s1: "\<not> contains_ci ''A+B (test)'' ''AAB test''" by code_simp
  have s2: "\<not> contains_ci ''A+B (test)'' ''tablets''" by code_simp
  have t: "compose_filter strict_engine [] (Some ''A+B (test'') = Inl SyntaxError"
    using compose_filter_throws [of "''A+B (test''" strict_engine SyntaxError "[]"]
    by (simp add: trim_examples RegExp_i_unbalanced)
  from c yes s1 s2 no t show ?thesis by (intro conjI)
qed

text \<open>
  Claim C3, amended, for ASCII text. The trimmed term is compiled as a pattern without
  escaping. For every ASCII search term whose trimmed text is not empty and has no
  character with a meaning of its own in a pattern, building the predicate does not throw,
  whatever the engine, and the predicate holds of exactly those records with an ASCII
  name and description in whose name or description the trimmed term occurs, letter case
  aside.
\<close>

theorem literal_term_matches_as_substring:
  assumes "ascii s" and "trim s \<noteq> []" and "\<forall>c \<in> set (trim s). \<not> pattern_special c"
  shows "compose_filter engine flt (Some s) =
           Inr (AList.update ''$or''
                  (Clauses [[(''name'', Pattern (Modelled (literal (trim s))))],
                            [(''description'', Pattern (Modelled (literal (trim s))))]]) flt) \<and>
         (\<forall>d. ascii (name d) \<and> ascii (description d) \<longrightarrow>
               (holds d ''$or''
                  (Clauses [[(''name'', Pattern (Modelled (literal (trim s))))],
                            [(''description'', Pattern (Modelled (literal (trim s))))]]) \<longleftrightarrow>
                contains_ci (trim s) (name d) \<or> contains_ci (trim s) (description d)))"
proof -
  from assms(3) have "RegExp_i engine (trim s) = Inr (Modelled (literal (trim s)))"
    by (rule RegExp_i_literal)
  with assms(2) have "compose_filter engine flt (Some s) =
           Inr (AList.update ''$or''
                  (Clauses [[(''name'', Pattern (Modelled (literal (trim s))))],
                            [(''description'', Pattern (Modelled (literal (trim s))))]]) flt)"
    by (rule compose_filter_compiled)
  moreover have "holds d ''$or''
                  (Clauses [[(''name'', Pattern (Modelled (literal (trim s))))],
                            [(''description'', Pattern (Modelled (literal (trim s))))]]) \<longleftrightarrow>
                contains_ci (trim s) (name d) \<or> contains_ci (trim s) (description d)" for d
    by (simp only: holds_search_clauses regex_test.simps modelled_test_literal)
  ultimately show ?thesis by blast
qed

text \<open>The term \<^verbatim>\<open>para\<close> between blanks finds \<^verbatim>\<open>Paracetamol\<close>.\<close>

theorem literal_term_matches_as_substring_witness:
  "ascii '' para '' \<and> trim '' para '' = ''para'' \<and> \<not> list_ex pattern_special ''para'' \<and>
   compose_filter strict_engine [] (Some '' para '') =
     Inr [(''$or'', Clauses [[(''name'', Pattern (Modelled (literal ''para'')))],
                            [(''description'', Pattern (Modelled (literal ''para'')))]])] \<and>
   ascii (name (sample_medicine ''Paracetamol'' True None)) \<and>
   ascii (description (sample_medicine ''Paracetamol'' True None)) \<and>
   holds (sample_medicine ''Paracetamol'' True None) ''$or''
     (Clauses [[(''name'', Pattern (Modelled (literal ''para'')))],
               [(''description'', Pattern (Modelled (literal ''para'')))]])"
proof -
  have h0: "ascii '' para ''" by (simp add: ascii_def)
  have h1: "trim '' para '' \<noteq> []" by (simp add: trim_examples)
  have h2: "\<forall>c \<in> set (trim '' para ''). \<not> pattern_special c"
    by (simp add: trim_examples pattern_special_def)
  have a: "ascii (name (sample_medicine ''Paracetamol'' True None))"
    "ascii (description (sample_medicine ''Paracetamol'' True None))"
    by (simp_all add: sample_medicine_def ascii_def)
  have "contains_ci ''para'' ''Paracetamol''" by code_simp
  then have "contains_ci (trim '' para '') (name (sample_medicine ''Paracetamol'' True None))"
    by (simp add: trim_examples sample_medicine_def)
  moreover have "\<not> list_ex pattern_special ''para''"
    by (simp add: pattern_special_def)
  ultimately show ?thesis
    using literal_term_matches_as_substring [OF h0 h1 h2, of strict_engine "[]"] h0 a
    by (simp add: trim_examples)
qed

text \<open>
  Claim C7 as stated fails for a term that is not blank. The term \<^verbatim>\<open>a.c\<close> yields a
  filter that matches a record named \<^verbatim>\<open>abc\<close>, although \<^verbatim>\<open>a.c\<close> occurs neither in its
  name nor in its description: the predicate is a pattern match, not a substring test. For
  the term \<^verbatim>\<open>(\<close> no filter is returned at all.
\<close>

theorem compose_filter_counterexample:
  "compose_filter strict_engine [(''isActive'', Lit (VBool True))] (Some ''a.c'') =
     Inr [(''isActive'', Lit (VBool True)),
          (''$or'', Clauses [[(''name'', Pattern (Modelled dot_pattern))],
                            [(''description'', Pattern (Modelled dot_pattern))]])] \<and>
   matches (sample_medicine ''abc'' True None)
     [(''isActive'', Lit (VBool True)),
      (''$or'', Clauses [[(''name'', Pattern (Modelled dot_pattern))],
                        [(''description'', Pattern (Modelled dot_pattern))]])] \<and>
   \<not> contains_ci ''a.c'' ''abc'' \<and>
   \<not> contains_ci ''a.c'' ''tablets'' \<and>
   compose_filter strict_engine [(''isActive'', Lit (VBool True))] (Some ''('') = Inl SyntaxError"
proof -
  have c: "compose_filter strict_engine [(''isActive'', Lit (VBool True))] (Some ''a.c'') =
     Inr [(''isActive'', Lit (VBool True)),
          (''$or'', Clauses [[(''name'', Pattern (Modelled dot_pattern))],
                            [(''description'', Pattern (Modelled dot_pattern))]])]"
    using compose_filter_compiled
      [of "''a.c''" strict_engine "Modelled dot_pattern" "[(''isActive'', Lit (VBool True))]"]
    by (simp add: trim_examples RegExp_i_dot)
  have m: "modelled_test dot_pattern ''abc''" by code_simp
  have yes: "matches (sample_medicine ''abc'' True None)
     [(''isActive'', Lit (VBool True)),
      (''$or'', Clauses [[(''name'', Pattern (Modelled dot_pattern))],
                        [(''description'', Pattern (Modelled dot_pattern))]])]"
    using m by (simp add: matches_def field_def sample_medicine_def)
  have s1: "\<not> contains_ci ''a.c'' ''abc''" by code_simp
  have s2: "\<not> contains_ci ''a.c'' ''tablets''" by code_simp
  have t: "compose_filter strict_engine [(''isActive'', Lit (VBool True))] (Some ''('') =
             Inl SyntaxError"
    using compose_filter_throws
      [of "''(''" strict_engine SyntaxError "[(''isActive'', Lit (VBool True))]"]
    by (simp add: trim_examples RegExp_i_open)
  from c yes s1 s2 t show ?thesis by (intro conjI)
qed

text \<open>
  Claim C7, amended, for ASCII text. For a search term that is absent, empty or made of
  white space only, the filter is the base filter, unchanged. For every other term whose
  trimmed text the engine compiles, be the pattern of the modelled fragment or not, the
  filter is the base filter with its \<^verbatim>\<open>$or\<close> key set to the two clauses "name matches the
  pattern" and "description matches the pattern", the match being case-insensitive; when
  the base filter has no \<^verbatim>\<open>$or\<close> key of its own, a record with an ASCII name and
  description matches the result exactly when it matches the base filter and its name or
  its description matches the pattern.
\<close>

theorem compose_filter_conjunction:
  "(search = None \<or> (\<exists>s. search = Some s \<and> ascii s \<and> (\<forall>c \<in> set s. isWhiteSpace c)) \<longrightarrow>
      compose_filter engine flt search = Inr flt) \<and>
   (\<forall>s re. search = Some s \<and> ascii s \<and> \<not> (\<forall>c \<in> set s. isWhiteSpace c) \<and>
            RegExp_i engine (trim s) = Inr re \<longrightarrow>
      compose_filter engine flt search =
        Inr (AList.update ''$or''
               (Clauses [[(''name'', Pattern re)], [(''description'', Pattern re)]]) flt) \<and>
      (''$or'' \<notin> fst ` set flt \<longrightarrow>
         (\<forall>d. ascii (name d) \<and> ascii (description d) \<longrightarrow>
               (matches d
                  (AList.update ''$or''
                     (Clauses [[(''name'', Pattern re)], [(''description'', Pattern re)]]) flt) \<longleftrightarrow>
                matches d flt \<and> (regex_test re (name d) \<or> regex_test re (description d))))))"
proof (intro conjI impI allI)
  assume "search = None \<or> (\<exists>s. search = Some s \<and> ascii s \<and> (\<forall>c \<in> set s. isWhiteSpace c))"
  then have "search = None \<or> (\<exists>s. search = Some s \<and> (\<forall>c \<in> set s. isWhiteSpace c))" by blast
  then show "compose_filter engine flt search = Inr flt" by (rule compose_filter_blank)
next
  fix s re
  assume a: "search = Some s \<and> ascii s \<and> \<not> (\<forall>c \<in> set s. isWhiteSpace c) \<and>
             RegExp_i engine (trim s) = Inr re"
  then have "trim s \<noteq> []" by (simp add: trim_empty_iff)
  with a show "compose_filter engine flt search =
        Inr (AList.update ''$or''
               (Clauses [[(''name'', Pattern re)], [(''description'', Pattern re)]]) flt)"
    by (simp add: compose_filter_compiled)
next
  fix s re d
  assume n: "''$or'' \<notin> fst ` set flt"
  show "matches d
                 (AList.update ''$or''
                    (Clauses [[(''name'', Pattern re)], [(''description'', Pattern re)]]) flt) \<longleftrightarrow>
               matches d flt \<and> (regex_test re (name d) \<or> regex_test re (description d))"
    by (simp only: matches_update_new [OF n] holds_search_clauses)
qed

text \<open>
  On the base filter of the listing route: a blank term leaves it as it is, and the term
  \<^verbatim>\<open>para\<close> between blanks adds the two clauses, which an active \<^verbatim>\<open>Paracetamol\<close> matches.
\<close>

theorem compose_filter_conjunction_witness:
  "compose_filter strict_engine [(''isActive'', Lit (VBool True))] (Some ''  '') =
     Inr [(''isActive'', Lit (VBool True))] \<and>
   compose_filter strict_engine [(''isActive'', Lit (VBool True))] (Some '' para '') =
     Inr [(''isActive'', Lit (VBool True)),
          (''$or'', Clauses [[(''name'', Pattern (Modelled (literal ''para'')))],
                            [(''description'', Pattern (Modelled (literal ''para'')))]])] \<and>
   matches (sample_medicine ''Paracetamol'' True None)
     [(''isActive'', Lit (VBool True)),
      (''$or'', Clauses [[(''name'', Pattern (Modelled (literal ''para'')))],
                        [(''description'', Pattern (Modelled (literal ''para'')))]])]"
proof -
  let ?flt = "[(''isActive'', Lit (VBool True))]"
  let ?re = "Modelled (literal ''para'')"
  have blank: "Some ''  '' = None \<or>
      (\<exists>s. Some ''  '' = Some s \<and> ascii s \<and> (\<forall>c \<in> set s. isWhiteSpace c))"
    by (simp add: isWhiteSpace_def ascii_def)
  have given: "Some '' para '' = Some '' para '' \<and> ascii '' para '' \<and>
              \<not> (\<forall>c \<in> set '' para ''. isWhiteSpace c) \<and>
              RegExp_i strict_engine (trim '' para '') = Inr ?re"
    by (simp add: isWhiteSpace_def ascii_def trim_examples RegExp_i_literal pattern_special_def)
  have nokey: "''$or'' \<notin> fst ` set ?flt" by simp
  have asc: "ascii (name (sample_medicine ''Paracetamol'' True None)) \<and>
             ascii (description (sample_medicine ''Paracetamol'' True None))"
    by (simp add: sample_medicine_def ascii_def)
  have base: "matches (sample_medicine ''Paracetamol'' True None) ?flt"
    by (simp add: matches_active)
  have "contains_ci ''para'' ''Paracetamol''" by code_simp
  then have "modelled_test (literal ''para'') ''Paracetamol''"
    by (simp only: modelled_test_literal)
  then have found: "regex_test ?re (name (sample_medicine ''Paracetamol'' True None))"
    by (simp add: sample_medicine_def del: literal.simps)
  from compose_filter_conjunction [of "Some ''  ''" strict_engine ?flt] blank
  have 1: "compose_filter strict_engine ?flt (Some ''  '') = Inr ?flt" by blast
  from compose_filter_conjunction [of "Some '' para ''" strict_engine ?flt] given nokey
  have 2: "compose_filter strict_engine ?flt (Some '' para '') =
        Inr (AList.update ''$or''
               (Clauses [[(''name'', Pattern ?re)], [(''description'', Pattern ?re)]]) ?flt)"
    and 3: "\<forall>d. ascii (name d) \<and> ascii (description d) \<longrightarrow>
               (matches d
                 (AList.update ''$or''
                    (Clauses [[(''name'', Pattern ?re)], [(''description'', Pattern ?re)]]) ?flt) \<longleftrightarrow>
               matches d ?flt \<and> (regex_test ?re (name d) \<or> regex_test ?re (description d)))"
    by blast+
  from 3 asc base found have "matches (sample_medicine ''Paracetamol'' True None)
       (AList.update ''$or''
          (Clauses [[(''name'', Pattern ?re)], [(''description'', Pattern ?re)]]) ?flt)"
    by blast
  with 1 2 show ?thesis by simp
qed

end
